theory Spec2Isabelle
  imports Main
begin

section \<open>Text primitives\<close>

text \<open>
  Message texts, triggers and names are Python \<open>str\<close> values.  They are modelled as
  \<^typ>\<open>string\<close>, one \<^typ>\<open>char\<close> per code point, which covers the code points
  0 to 255 (Latin-1).  On that range \<open>str.lower\<close> moves \<open>A\<close>..\<open>Z\<close> and the
  upper-case letters 192..222 (without the multiplication sign 215) up by 32, and
  \<open>str.strip\<close> removes the code points for which \<open>str.isspace\<close> holds.
\<close>

definition lower_char :: "char \<Rightarrow> char" where
  "lower_char c =
     (let n = (of_char c :: nat)
      in if (65 \<le> n \<and> n \<le> 90) \<or> (192 \<le> n \<and> n \<le> 222 \<and> n \<noteq> 215)
         then char_of (n + 32) else c)"

definition lower :: "string \<Rightarrow> string" where
  "lower s = map lower_char s"

definition isspace :: "char \<Rightarrow> bool" where
  "isspace c =
     (let n = (of_char c :: nat)
      in (9 \<le> n \<and> n \<le> 13) \<or> (28 \<le> n \<and> n \<le> 32) \<or> n = 133 \<or> n = 160)"

definition lstrip :: "string \<Rightarrow> string" where
  "lstrip s = dropWhile isspace s"

definition rstrip :: "string \<Rightarrow> string" where
  "rstrip s = rev (dropWhile isspace (rev s))"

definition strip :: "string \<Rightarrow> string" where
  "strip s = rstrip (lstrip s)"

definition startswith :: "string \<Rightarrow> string \<Rightarrow> bool" where
  "startswith s p = (take (length p) s = p)"

definition endswith :: "string \<Rightarrow> string \<Rightarrow> bool" where
  "endswith s p = (length p \<le> length s \<and> drop (length s - length p) s = p)"

text \<open>\<open>s.split(sep)\<close> for a one-character separator: always at least one piece.\<close>

fun split_on :: "char \<Rightarrow> string \<Rightarrow> string list" where
  "split_on sep [] = [[]]"
| "split_on sep (c # cs) =
     (if c = sep then [] # split_on sep cs
      else (case split_on sep cs of
              [] \<Rightarrow> [[c]]
            | p # ps \<Rightarrow> (c # p) # ps))"

text \<open>The slice \<open>s[1:-1]\<close>.\<close>

definition slice_1_m1 :: "string \<Rightarrow> string" where
  "slice_1_m1 s = butlast (tl s)"

section \<open>Trigger matching and content extraction\<close>

text \<open>
  \<open>AliasManager._matches_trigger\<close> and \<open>AliasManager._extract_content\<close>
  (src/bot/alias_manager.py).  A trigger is of the bracket class when its lower-cased
  form starts with \<open>[\<close> and ends with \<open>]\<close>, of the parenthesis class likewise.
\<close>

definition bracket_trigger :: "string \<Rightarrow> bool" where
  "bracket_trigger trigger_lower =
     (startswith trigger_lower ''['' \<and> endswith trigger_lower '']'')"

definition paren_trigger :: "string \<Rightarrow> bool" where
  "paren_trigger trigger_lower =
     (startswith trigger_lower ''('' \<and> endswith trigger_lower '')'')"

definition matches_trigger :: "string \<Rightarrow> string \<Rightarrow> bool" where
  "matches_trigger message trigger =
     (if message = [] \<or> trigger = [] then False
      else let message_lower = lower message; trigger_lower = lower trigger
        in if bracket_trigger trigger_lower
           then startswith message_lower ''['' \<and> endswith message_lower '']''
                \<and> length message > 2
           else if paren_trigger trigger_lower
           then startswith message_lower ''('' \<and> endswith message_lower '')''
                \<and> length message > 2
           else if startswith message_lower trigger_lower then True
           else if trigger_lower = message_lower then True
           else False)"

definition extract_content :: "string \<Rightarrow> string \<Rightarrow> string" where
  "extract_content message trigger =
     (if message = [] \<or> trigger = [] then message
      else let message_lower = lower message; trigger_lower = lower trigger
        in if bracket_trigger trigger_lower
           then (if startswith message_lower ''['' \<and> endswith message_lower '']''
                 then strip (slice_1_m1 message) else message)
           else if paren_trigger trigger_lower
           then (if startswith message_lower ''('' \<and> endswith message_lower '')''
                 then strip (slice_1_m1 message) else message)
           else if trigger_lower = message_lower then []
           else if startswith message_lower trigger_lower
           then strip (drop (length trigger) message)
           else message)"

section \<open>Data model\<close>

text \<open>
  The rows of src/models.py that the engine reads.  Discord ids are stored as decimal
  strings in the database and compared with \<open>str(id)\<close>; both sides are modelled by the
  number itself.
\<close>

record CharacterAlias =
  alias_id :: nat
  user_id :: nat
  guild_id :: nat
  name :: string
  trigger :: string
  avatar_url :: string
  group_name :: "string option"
  subgroup :: "string option"
  message_count :: "nat option"

record AliasOverride =
  ov_user_id :: nat
  ov_guild_id :: nat
  original_alias_id :: nat
  personal_trigger :: string
  is_active :: bool

record SharedGroup =
  sg_id :: nat
  sg_guild_id :: nat
  owner_id :: nat
  sg_group_name :: string
  subgroup_name :: "string option"
  sg_is_active :: bool
  is_single_alias :: bool
  single_alias_id :: "nat option"

record SharedGroupPermission =
  shared_group_id :: nat
  perm_user_id :: nat
  permission_level :: string

text \<open>The dictionaries built by \<open>_get_user_overrides\<close> and \<open>_get_shared_aliases_for_user\<close>.\<close>

record override_data =
  od_personal_trigger :: string
  od_alias :: CharacterAlias
  od_override :: AliasOverride

record shared_data =
  sd_alias :: CharacterAlias
  sd_permission :: string
  sd_shared_group :: SharedGroup

text \<open>The value type of \<open>AliasManager.auto_proxy\<close>: \<open>{'guild_id': ..., 'alias': ...}\<close>.\<close>

record auto_data =
  ap_guild_id :: nat
  ap_alias :: "CharacterAlias option"

record webhook =
  webhook_id :: nat
  webhook_name :: string
  webhook_channel :: nat

text \<open>A channel; \<open>parent\<close> is set when the channel is a thread.\<close>

record channel =
  channel_id :: nat
  parent :: "nat option"

record message =
  message_id :: nat
  author_id :: nat
  author_bot :: bool
  guild :: "nat option"
  msg_channel :: channel
  content :: string

section \<open>Exceptions and the platform interface\<close>

text \<open>
  \<open>discord.NotFound\<close> and \<open>discord.Forbidden\<close> are subclasses of
  \<open>discord.HTTPException\<close>; each carries the platform's error \<open>code\<close>.  Every other
  exception (database errors, \<open>ValueError\<close>, a plain \<open>Exception\<close>) is \<open>PyException\<close>.
\<close>

datatype failure = NotFound nat | Forbidden nat | HTTPException nat | PyException

fun is_http :: "failure \<Rightarrow> bool" where
  "is_http PyException = False"
| "is_http _ = True"

fun code :: "failure \<Rightarrow> nat" where
  "code (NotFound c) = c"
| "code (Forbidden c) = c"
| "code (HTTPException c) = c"
| "code PyException = 0"

fun is_not_found :: "failure \<Rightarrow> bool" where
  "is_not_found (NotFound c) = True"
| "is_not_found _ = False"

fun is_forbidden :: "failure \<Rightarrow> bool" where
  "is_forbidden (Forbidden c) = True"
| "is_forbidden _ = False"

text \<open>The kinds of platform request, and the requests themselves as they are logged.\<close>

datatype api = Fetch | ListWebhooks | CreateWebhook | DeleteWebhook | SendWebhook
  | DeleteMessage | ChannelSend

datatype call =
    CallFetch webhook
  | CallListWebhooks nat
  | CallCreateWebhook nat string
  | CallDeleteWebhook webhook
  | CallSend webhook string string string "nat option"
  | CallDeleteMessage nat
  | CallChannelSend nat string

text \<open>
  One record holds everything mutable: the fields of \<open>AliasManager\<close>, the database and
  the platform.  \<open>outcomes\<close> fixes, per kind of request, what the platform answers to the
  successive requests of that kind (\<open>None\<close> is success; an exhausted list is success);
  \<open>calls\<close> is the log of requests made, with their answers.  \<open>session_ok\<close> says whether
  \<open>get_session\<close> returns, \<open>query_ok\<close> whether a query on an open session returns, and
  \<open>ilike\<close> is the database's case-insensitive pattern operator (column value first).
\<close>

record world =
  webhook_cache :: "nat \<rightharpoonup> webhook"
  processing_messages :: "nat set"
  auto_proxy :: "nat \<rightharpoonup> auto_data"
  session_ok :: bool
  query_ok :: bool
  ilike :: "string \<Rightarrow> string \<Rightarrow> bool"
  character_aliases :: "CharacterAlias list"
  alias_overrides :: "AliasOverride list"
  shared_groups :: "SharedGroup list"
  shared_group_permissions :: "SharedGroupPermission list"
  webhooks :: "webhook list"
  next_webhook_id :: nat
  outcomes :: "api \<Rightarrow> failure option list"
  calls :: "(call \<times> failure option) list"

definition request :: "api \<Rightarrow> call \<Rightarrow> world \<Rightarrow> failure option \<times> world" where
  "request k c w =
     (case outcomes w k of
        [] \<Rightarrow> (None, w\<lparr>calls := calls w @ [(c, None)]\<rparr>)
      | r # rs \<Rightarrow> (r, w\<lparr>outcomes := (outcomes w)(k := rs), calls := calls w @ [(c, r)]\<rparr>))"

definition webhook_fetch :: "world \<Rightarrow> webhook \<Rightarrow> failure option \<times> world" where
  "webhook_fetch w h = request Fetch (CallFetch h) w"

definition channel_webhooks :: "world \<Rightarrow> nat \<Rightarrow> (failure + webhook list) \<times> world" where
  "channel_webhooks w ch =
     (case request ListWebhooks (CallListWebhooks ch) w of
        (Some e, w') \<Rightarrow> (Inl e, w')
      | (None, w') \<Rightarrow> (Inr (filter (\<lambda>h. webhook_channel h = ch) (webhooks w')), w'))"

definition channel_create_webhook :: "world \<Rightarrow> nat \<Rightarrow> string \<Rightarrow> (failure + webhook) \<times> world" where
  "channel_create_webhook w ch nm =
     (case request CreateWebhook (CallCreateWebhook ch nm) w of
        (Some e, w') \<Rightarrow> (Inl e, w')
      | (None, w') \<Rightarrow>
          (let h = \<lparr>webhook_id = next_webhook_id w', webhook_name = nm, webhook_channel = ch\<rparr>
           in (Inr h, w'\<lparr>webhooks := webhooks w' @ [h],
                         next_webhook_id := Suc (next_webhook_id w')\<rparr>)))"

definition webhook_delete :: "world \<Rightarrow> webhook \<Rightarrow> failure option \<times> world" where
  "webhook_delete w h =
     (case request DeleteWebhook (CallDeleteWebhook h) w of
        (Some e, w') \<Rightarrow> (Some e, w')
      | (None, w') \<Rightarrow>
          (None, w'\<lparr>webhooks := filter (\<lambda>x. webhook_id x \<noteq> webhook_id h) (webhooks w')\<rparr>))"

definition webhook_send ::
  "world \<Rightarrow> webhook \<Rightarrow> string \<Rightarrow> string \<Rightarrow> string \<Rightarrow> nat option \<Rightarrow> failure option \<times> world" where
  "webhook_send w h username avatar text thread =
     request SendWebhook (CallSend h username avatar text thread) w"

definition message_delete :: "world \<Rightarrow> message \<Rightarrow> failure option \<times> world" where
  "message_delete w m = request DeleteMessage (CallDeleteMessage (message_id m)) w"

definition channel_send :: "world \<Rightarrow> channel \<Rightarrow> string \<Rightarrow> failure option \<times> world" where
  "channel_send w c text = request ChannelSend (CallChannelSend (channel_id c) text) w"

section \<open>Persona store queries\<close>

text \<open>
  \<open>get_user_aliases\<close> opens the session outside its \<open>try\<close>, so a failing session
  raises; a failing query is caught and gives the empty list.
\<close>

definition get_user_aliases :: "world \<Rightarrow> nat \<Rightarrow> nat \<Rightarrow> failure + CharacterAlias list" where
  "get_user_aliases w uid gid =
     (if \<not> session_ok w then Inl PyException
      else if \<not> query_ok w then Inr []
      else Inr (filter (\<lambda>a. user_id a = uid \<and> guild_id a = gid) (character_aliases w)))"

text \<open>\<open>get_alias_by_name\<close> has \<open>try\<close>/\<open>finally\<close> only: both failures raise.\<close>

definition get_alias_by_name ::
  "world \<Rightarrow> nat \<Rightarrow> nat \<Rightarrow> string \<Rightarrow> failure + CharacterAlias option" where
  "get_alias_by_name w uid gid nm =
     (if \<not> session_ok w \<or> \<not> query_ok w then Inl PyException
      else Inr (find (\<lambda>a. user_id a = uid \<and> guild_id a = gid \<and> ilike w (name a) nm)
                  (character_aliases w)))"

text \<open>
  \<open>_get_shared_aliases_for_user\<close>: the active shared groups of the guild joined with the
  viewer's permissions; a single-alias share contributes that alias, a group share every
  alias of the group's owner in the group (and subgroup, when the share names one).
  Every failure is caught and gives the empty list.
\<close>

definition aliases_of_share :: "world \<Rightarrow> nat \<Rightarrow> SharedGroup \<times> SharedGroupPermission \<Rightarrow> shared_data list" where
  "aliases_of_share w gid sp =
     (case sp of (shared_group, permission) \<Rightarrow>
        (if is_single_alias shared_group \<and> single_alias_id shared_group \<noteq> None
            \<and> single_alias_id shared_group \<noteq> Some 0
         then (case find (\<lambda>a. Some (alias_id a) = single_alias_id shared_group)
                      (character_aliases w) of
                 None \<Rightarrow> []
               | Some a \<Rightarrow> [\<lparr>sd_alias = a, sd_permission = permission_level permission,
                              sd_shared_group = shared_group\<rparr>])
         else map (\<lambda>a. \<lparr>sd_alias = a, sd_permission = permission_level permission,
                         sd_shared_group = shared_group\<rparr>)
                (filter (\<lambda>a. user_id a = owner_id shared_group \<and> guild_id a = gid
                              \<and> group_name a = Some (sg_group_name shared_group)
                              \<and> (subgroup_name shared_group = None
                                  \<or> subgroup_name shared_group = Some []
                                  \<or> subgroup a = subgroup_name shared_group))
                   (character_aliases w))))"

definition get_shared_aliases_for_user :: "world \<Rightarrow> nat \<Rightarrow> nat \<Rightarrow> shared_data list" where
  "get_shared_aliases_for_user w uid gid =
     (if \<not> session_ok w \<or> \<not> query_ok w then []
      else concat (map (aliases_of_share w gid)
             [(sg, p). sg \<leftarrow> shared_groups w, p \<leftarrow> shared_group_permissions w,
                sg_id sg = shared_group_id p, perm_user_id p = uid, sg_guild_id sg = gid,
                sg_is_active sg]))"

text \<open>
  \<open>_get_user_overrides\<close>: the viewer's active overrides joined with their personas.
  The query has no \<open>ORDER BY\<close>: the order of the rows in the two tables of the model
  stands for the order in which the store returns them.
\<close>

definition get_user_overrides :: "world \<Rightarrow> nat \<Rightarrow> nat \<Rightarrow> override_data list" where
  "get_user_overrides w uid gid =
     (if \<not> session_ok w \<or> \<not> query_ok w then []
      else [\<lparr>od_personal_trigger = personal_trigger ov, od_alias = a, od_override = ov\<rparr>.
              ov \<leftarrow> alias_overrides w, a \<leftarrow> character_aliases w,
              original_alias_id ov = alias_id a, ov_user_id ov = uid, ov_guild_id ov = gid,
              is_active ov])"

section \<open>Trigger resolver\<close>

text \<open>
  The sticky update that \<open>check_message_for_alias\<close> and \<open>parse_multiline_aliases\<close> repeat
  at each match: when the author has an entry whose guild is the message's guild, its
  \<open>'alias'\<close> becomes the matched persona.
\<close>

definition update_auto_proxy :: "world \<Rightarrow> nat \<Rightarrow> nat \<Rightarrow> CharacterAlias \<Rightarrow> world" where
  "update_auto_proxy w uid gid a =
     (case auto_proxy w uid of
        None \<Rightarrow> w
      | Some auto_data \<Rightarrow>
          (if ap_guild_id auto_data = gid
           then w\<lparr>auto_proxy := (auto_proxy w)(uid \<mapsto> auto_data\<lparr>ap_alias := Some a\<rparr>)\<rparr>
           else w))"

text \<open>The two \<open>for\<close> loops of \<open>check_message_for_alias\<close>, up to their \<open>return\<close>.\<close>

fun first_override_match :: "string \<Rightarrow> override_data list \<Rightarrow> (CharacterAlias \<times> string) option" where
  "first_override_match text [] = None"
| "first_override_match text (od # ods) =
     (if matches_trigger text (od_personal_trigger od)
      then Some (od_alias od, extract_content text (od_personal_trigger od))
      else first_override_match text ods)"

fun first_alias_match :: "string \<Rightarrow> CharacterAlias list \<Rightarrow> (CharacterAlias \<times> string) option" where
  "first_alias_match text [] = None"
| "first_alias_match text (a # as) =
     (if matches_trigger text (trigger a)
      then Some (a, extract_content text (trigger a))
      else first_alias_match text as)"

text \<open>The last block of both functions: the sticky persona of the author in this guild.\<close>

definition auto_proxy_alias :: "world \<Rightarrow> nat \<Rightarrow> nat \<Rightarrow> CharacterAlias option" where
  "auto_proxy_alias w uid gid =
     (case auto_proxy w uid of
        None \<Rightarrow> None
      | Some auto_data \<Rightarrow> (if ap_guild_id auto_data = gid then ap_alias auto_data else None))"

definition check_message_for_alias ::
  "world \<Rightarrow> message \<Rightarrow> failure + ((CharacterAlias \<times> string) option \<times> world)" where
  "check_message_for_alias w m =
     (case guild m of
        None \<Rightarrow> Inr (None, w)
      | Some gid \<Rightarrow>
          if author_bot m then Inr (None, w)
          else (case get_user_aliases w (author_id m) gid of
             Inl e \<Rightarrow> Inl e
           | Inr user_aliases \<Rightarrow>
              (let shared_aliases = get_shared_aliases_for_user w (author_id m) gid;
                   overrides = get_user_overrides w (author_id m) gid;
                   all_aliases = user_aliases @ map sd_alias shared_aliases
               in case first_override_match (content m) overrides of
                    Some (a, actual_content) \<Rightarrow>
                      Inr (Some (a, actual_content), update_auto_proxy w (author_id m) gid a)
                  | None \<Rightarrow>
                     (case first_alias_match (content m) all_aliases of
                        Some (a, actual_content) \<Rightarrow>
                          Inr (Some (a, actual_content), update_auto_proxy w (author_id m) gid a)
                      | None \<Rightarrow>
                         (case auto_proxy_alias w (author_id m) gid of
                            Some a \<Rightarrow> Inr (Some (a, content m), w)
                          | None \<Rightarrow> Inr (None, w))))))"

section \<open>Multi-line splitter\<close>

text \<open>
  In \<open>parse_multiline_aliases\<close> a trigger match only ends the loop (\<open>break\<close>) when the
  extracted content is not blank; otherwise the loop goes on to the next candidate.
\<close>

fun line_override_match :: "string \<Rightarrow> override_data list \<Rightarrow> (CharacterAlias \<times> string) option" where
  "line_override_match line [] = None"
| "line_override_match line (od # ods) =
     (if matches_trigger line (od_personal_trigger od)
         \<and> strip (extract_content line (od_personal_trigger od)) \<noteq> []
      then Some (od_alias od, extract_content line (od_personal_trigger od))
      else line_override_match line ods)"

fun line_alias_match :: "string \<Rightarrow> CharacterAlias list \<Rightarrow> (CharacterAlias \<times> string) option" where
  "line_alias_match line [] = None"
| "line_alias_match line (a # as) =
     (if matches_trigger line (trigger a) \<and> strip (extract_content line (trigger a)) \<noteq> []
      then Some (a, extract_content line (trigger a))
      else line_alias_match line as)"

text \<open>The body of \<open>for line in lines\<close>, on the list built so far and the state.\<close>

definition parse_line ::
  "nat \<Rightarrow> nat \<Rightarrow> override_data list \<Rightarrow> CharacterAlias list \<Rightarrow> string \<Rightarrow>
   (CharacterAlias \<times> string) list \<times> world \<Rightarrow> (CharacterAlias \<times> string) list \<times> world" where
  "parse_line uid gid overrides all_aliases l acc =
     (case acc of (parsed_messages, w) \<Rightarrow>
       (let line = strip l
        in if line = [] then (parsed_messages, w)
           else (case line_override_match line overrides of
              Some (a, actual_content) \<Rightarrow>
                (parsed_messages @ [(a, actual_content)], update_auto_proxy w uid gid a)
            | None \<Rightarrow>
               (case line_alias_match line all_aliases of
                  Some (a, actual_content) \<Rightarrow>
                    (parsed_messages @ [(a, actual_content)], update_auto_proxy w uid gid a)
                | None \<Rightarrow>
                   (case auto_proxy_alias w uid gid of
                      Some a \<Rightarrow> (parsed_messages @ [(a, line)], w)
                    | None \<Rightarrow> (parsed_messages, w))))))"

fun parse_lines ::
  "nat \<Rightarrow> nat \<Rightarrow> override_data list \<Rightarrow> CharacterAlias list \<Rightarrow> string list \<Rightarrow>
   (CharacterAlias \<times> string) list \<times> world \<Rightarrow> (CharacterAlias \<times> string) list \<times> world" where
  "parse_lines uid gid overrides all_aliases [] acc = acc"
| "parse_lines uid gid overrides all_aliases (l # lines) acc =
     parse_lines uid gid overrides all_aliases lines
       (parse_line uid gid overrides all_aliases l acc)"

definition parse_multiline_aliases ::
  "world \<Rightarrow> message \<Rightarrow> failure + ((CharacterAlias \<times> string) list option \<times> world)" where
  "parse_multiline_aliases w m =
     (case guild m of
        None \<Rightarrow> Inr (None, w)
      | Some gid \<Rightarrow>
          if author_bot m then Inr (None, w)
          else (let lines = split_on (CHR 0x0A) (content m)
            in if length lines \<le> 1 then Inr (None, w)
               else (case get_user_aliases w (author_id m) gid of
                  Inl e \<Rightarrow> Inl e
                | Inr user_aliases \<Rightarrow>
                   (let shared_aliases = get_shared_aliases_for_user w (author_id m) gid;
                        overrides = get_user_overrides w (author_id m) gid;
                        all_aliases = user_aliases @ map sd_alias shared_aliases
                    in case parse_lines (author_id m) gid overrides all_aliases lines ([], w) of
                         (parsed_messages, w') \<Rightarrow>
                           (if parsed_messages \<noteq> [] then Inr (Some parsed_messages, w')
                            else Inr (None, w'))))))"

text \<open>\<open>contains_any_alias_trigger\<close>: every exception is caught and answers \<open>False\<close>.\<close>

definition contains_any_alias_trigger :: "world \<Rightarrow> string \<Rightarrow> nat \<Rightarrow> nat \<Rightarrow> bool" where
  "contains_any_alias_trigger w text uid gid =
     (case get_user_aliases w uid gid of
        Inl e \<Rightarrow> False
      | Inr user_aliases \<Rightarrow>
         (let shared_aliases = get_shared_aliases_for_user w uid gid;
              overrides = get_user_overrides w uid gid;
              all_aliases = user_aliases @ map sd_alias shared_aliases
          in if list_ex (\<lambda>od. matches_trigger text (od_personal_trigger od)) overrides then True
             else list_ex (\<lambda>a. trigger a \<noteq> [] \<and> matches_trigger text (trigger a)) all_aliases))"

section \<open>Sticky auto-proxy\<close>

definition enable_auto_proxy :: "world \<Rightarrow> nat \<Rightarrow> nat \<Rightarrow> string \<Rightarrow> failure + (bool \<times> world)" where
  "enable_auto_proxy w uid gid alias_name =
     (if alias_name \<noteq> []
      then (case get_alias_by_name w uid gid alias_name of
              Inl e \<Rightarrow> Inl e
            | Inr None \<Rightarrow> Inr (False, w)
            | Inr (Some a) \<Rightarrow>
                Inr (True, w\<lparr>auto_proxy := (auto_proxy w)(uid \<mapsto>
                                \<lparr>ap_guild_id = gid, ap_alias = Some a\<rparr>)\<rparr>))
      else Inr (True, w\<lparr>auto_proxy := (auto_proxy w)(uid \<mapsto>
                          \<lparr>ap_guild_id = gid, ap_alias = None\<rparr>)\<rparr>))"

definition disable_auto_proxy :: "world \<Rightarrow> nat \<Rightarrow> bool \<times> world" where
  "disable_auto_proxy w uid =
     (if auto_proxy w uid \<noteq> None
      then (True, w\<lparr>auto_proxy := (auto_proxy w)(uid := None)\<rparr>)
      else (False, w))"

definition get_auto_proxy_status :: "world \<Rightarrow> nat \<Rightarrow> nat \<Rightarrow> CharacterAlias option" where
  "get_auto_proxy_status w uid gid =
     (case auto_proxy w uid of
        None \<Rightarrow> None
      | Some auto_data \<Rightarrow> (if ap_guild_id auto_data = gid then ap_alias auto_data else None))"

text \<open>
  The three states of the specification's state machine, read off the dictionary for an
  operator and a guild: an entry counts for the guild it is tagged with, as the guards of
  the resolver read it.
\<close>

datatype sticky = Disabled | EnabledUnset | EnabledWith CharacterAlias

definition sticky_state :: "world \<Rightarrow> nat \<Rightarrow> nat \<Rightarrow> sticky" where
  "sticky_state w uid gid =
     (case auto_proxy w uid of
        None \<Rightarrow> Disabled
      | Some auto_data \<Rightarrow>
          (if ap_guild_id auto_data = gid
           then (case ap_alias auto_data of None \<Rightarrow> EnabledUnset | Some a \<Rightarrow> EnabledWith a)
           else Disabled))"

section \<open>Delivery endpoint pool\<close>

definition recognized :: "webhook \<Rightarrow> bool" where
  "recognized h = (webhook_name h \<in> set [''Quest Keeper RP'', ''Character Alias Bot''])"

text \<open>A loop of \<open>webhook.delete\<close> calls in which every exception is passed over.\<close>

fun delete_each :: "world \<Rightarrow> webhook list \<Rightarrow> world" where
  "delete_each w [] = w"
| "delete_each w (h # hs) = delete_each (snd (webhook_delete w h)) hs"

text \<open>
  \<open>_cleanup_old_webhooks\<close>: its two deletion passes, then the function.  The result is
  the exception it re-raises, if any.  The second pass tests the length of the list
  fetched at the start, as the source does.
\<close>

definition cleanup_recognized :: "world \<Rightarrow> webhook list \<Rightarrow> world" where
  "cleanup_recognized w hooks =
     (let quest_keeper_webhooks = filter recognized hooks
      in if length quest_keeper_webhooks > 1
         then delete_each w (tl quest_keeper_webhooks) else w)"

definition cleanup_others :: "world \<Rightarrow> webhook list \<Rightarrow> world" where
  "cleanup_others w hooks =
     (if length hooks \<ge> 15
      then delete_each w (take 5 (filter (\<lambda>h. \<not> recognized h) hooks))
      else w)"

definition cleanup_old_webhooks :: "world \<Rightarrow> nat \<Rightarrow> failure option \<times> world" where
  "cleanup_old_webhooks w ch =
     (case channel_webhooks w ch of
        (Inl e, w1) \<Rightarrow> (Some e, w1)
      | (Inr hooks, w1) \<Rightarrow> (None, cleanup_others (cleanup_recognized w1 hooks) hooks))"

definition cache_webhook :: "world \<Rightarrow> nat \<Rightarrow> webhook \<Rightarrow> world" where
  "cache_webhook w ch h = w\<lparr>webhook_cache := (webhook_cache w)(ch \<mapsto> h)\<rparr>"

text \<open>
  The block \<open># Create new webhook\<close> of \<open>get_or_create_webhook\<close>.  The handler for
  \<open>discord.HTTPException\<close> comes first, so it also takes \<open>discord.Forbidden\<close>; whatever
  is raised from here is a plain exception.
\<close>

definition create_new_webhook :: "world \<Rightarrow> nat \<Rightarrow> (failure + webhook) \<times> world" where
  "create_new_webhook w ch =
     (case channel_create_webhook w ch ''Quest Keeper RP'' of
        (Inr h, w1) \<Rightarrow> (Inr h, cache_webhook w1 ch h)
      | (Inl e, w1) \<Rightarrow>
          (if is_http e then
             (if code e = 30007 then
                (case cleanup_old_webhooks w1 ch of
                   (Some cleanup_error, w2) \<Rightarrow> (Inl PyException, w2)
                 | (None, w2) \<Rightarrow>
                     (case channel_create_webhook w2 ch ''Quest Keeper RP'' of
                        (Inr h, w3) \<Rightarrow> (Inr h, cache_webhook w3 ch h)
                      | (Inl cleanup_error, w3) \<Rightarrow> (Inl PyException, w3)))
              else (Inl PyException, w1))
           else (Inl PyException, w1)))"

text \<open>The block \<open># Try to find existing Quest Keeper webhook first\<close>.\<close>

definition find_existing_webhook :: "world \<Rightarrow> nat \<Rightarrow> webhook option \<times> world" where
  "find_existing_webhook w ch =
     (case channel_webhooks w ch of
        (Inl e, w1) \<Rightarrow> (None, w1)
      | (Inr hooks, w1) \<Rightarrow>
          (case find recognized hooks of
             None \<Rightarrow> (None, w1)
           | Some h \<Rightarrow> (Some h, cache_webhook w1 ch h)))"

definition get_or_create_webhook :: "world \<Rightarrow> nat \<Rightarrow> (failure + webhook) \<times> world" where
  "get_or_create_webhook w ch =
     (let after_cache =
            (case webhook_cache w ch of
               None \<Rightarrow> (None, w)
             | Some h \<Rightarrow>
                 (case webhook_fetch w h of
                    (None, w1) \<Rightarrow> (Some (Inr h), w1)
                  | (Some e, w1) \<Rightarrow>
                      (if is_not_found e
                       then (None, w1\<lparr>webhook_cache := (webhook_cache w1)(ch := None)\<rparr>)
                       else (Some (Inl e), w1))))
      in case after_cache of
           (Some r, w1) \<Rightarrow> (r, w1)
         | (None, w1) \<Rightarrow>
             (case find_existing_webhook w1 ch of
                (Some h, w2) \<Rightarrow> (Inr h, w2)
              | (None, w2) \<Rightarrow> create_new_webhook w2 ch))"

text \<open>
  \<open>increment_message_count\<close>: the session is opened outside the \<open>try\<close>; a failing query
  is caught.  The \<open>last_used\<close> time stamp is not part of the model.
\<close>

fun bump_first :: "(CharacterAlias \<Rightarrow> bool) \<Rightarrow> CharacterAlias list \<Rightarrow> CharacterAlias list" where
  "bump_first P [] = []"
| "bump_first P (a # as) =
     (if P a
      then a\<lparr>message_count := Some ((case message_count a of None \<Rightarrow> 0 | Some n \<Rightarrow> n) + 1)\<rparr> # as
      else a # bump_first P as)"

definition increment_message_count :: "world \<Rightarrow> nat \<Rightarrow> nat \<Rightarrow> string \<Rightarrow> failure option \<times> world" where
  "increment_message_count w uid gid alias_name =
     (if \<not> session_ok w then (Some PyException, w)
      else if \<not> query_ok w then (None, w)
      else (None, w\<lparr>character_aliases :=
              bump_first (\<lambda>a. user_id a = uid \<and> guild_id a = gid \<and> ilike w (name a) alias_name)
                (character_aliases w)\<rparr>))"

definition send_as_character ::
  "world \<Rightarrow> channel \<Rightarrow> CharacterAlias \<Rightarrow> string \<Rightarrow> failure option \<times> world" where
  "send_as_character w c a text =
     (let webhook_channel = (case parent c of None \<Rightarrow> channel_id c | Some p \<Rightarrow> p)
      in case get_or_create_webhook w webhook_channel of
           (Inl e, w1) \<Rightarrow> (Some e, w1)
         | (Inr h, w1) \<Rightarrow>
             (case webhook_send w1 h (name a) (avatar_url a) text
                     (case parent c of None \<Rightarrow> None | Some p \<Rightarrow> Some (channel_id c)) of
                (Some e, w2) \<Rightarrow> (Some e, w2)
              | (None, w2) \<Rightarrow> increment_message_count w2 (user_id a) (guild_id a) (name a)))"

section \<open>Dispatcher\<close>

definition handle_potential_consolidation :: "message \<Rightarrow> CharacterAlias \<Rightarrow> string \<Rightarrow> bool" where
  "handle_potential_consolidation m a text = False"

text \<open>The inner loop of the multi-line branch: a failed send is logged and the loop goes on.\<close>

fun send_each :: "world \<Rightarrow> channel \<Rightarrow> (CharacterAlias \<times> string) list \<Rightarrow> world" where
  "send_each w c [] = w"
| "send_each w c ((a, text) # rest) = send_each (snd (send_as_character w c a text)) c rest"

definition discard :: "world \<Rightarrow> nat \<Rightarrow> world" where
  "discard w mid = w\<lparr>processing_messages := processing_messages w - {mid}\<rparr>"

text \<open>
  The \<open>try\<close> block of \<open>on_message\<close> (src/main.py).  Every exception raised inside it is
  caught by one of its handlers and logged, so the block always yields a state; the
  failure notice of the last handler is sent with the persona's name as its text.
\<close>

definition on_message_try :: "world \<Rightarrow> message \<Rightarrow> world" where
  "on_message_try w m =
     (if message_id m \<in> processing_messages w then w
      else
       (let w1 = w\<lparr>processing_messages := insert (message_id m) (processing_messages w)\<rparr>
        in case parse_multiline_aliases w1 m of
             Inl e \<Rightarrow> w1
           | Inr (multiline_aliases, w2) \<Rightarrow>
              (if multiline_aliases \<noteq> None \<and> multiline_aliases \<noteq> Some []
                  \<and> length (the multiline_aliases) > 1
               then
                 (if length (remdups (map (\<lambda>(a, text). name a) (the multiline_aliases))) > 1
                  then
                    (case message_delete w2 m of
                       (Some e, w3) \<Rightarrow> discard w3 (message_id m)
                     | (None, w3) \<Rightarrow>
                         discard (send_each w3 (msg_channel m) (the multiline_aliases))
                           (message_id m))
                  else w2)
               else
                 (case check_message_for_alias w2 m of
                    Inl e \<Rightarrow> w2
                  | Inr (None, w3) \<Rightarrow>
                      (if \<not> contains_any_alias_trigger w3 (content m) (author_id m) (the (guild m))
                       then w3 else w3)
                  | Inr (Some (a, text), w3) \<Rightarrow>
                      (if handle_potential_consolidation m a text
                       then discard (snd (message_delete w3 m)) (message_id m)
                       else
                         (case message_delete w3 m of
                            (Some e, w4) \<Rightarrow>
                              (if is_forbidden e \<or> is_not_found e then w4
                               else snd (channel_send w4 (msg_channel m) (name a)))
                          | (None, w4) \<Rightarrow>
                              (case send_as_character w4 (msg_channel m) a text of
                                 (None, w5) \<Rightarrow> w5
                               | (Some e, w5) \<Rightarrow>
                                   (if is_forbidden e \<or> is_not_found e then w5
                                    else snd (channel_send w5 (msg_channel m) (name a))))))))))"

text \<open>\<open>on_message\<close>: the three early returns, then the \<open>try\<close> block and its \<open>finally\<close>.\<close>

definition on_message :: "world \<Rightarrow> message \<Rightarrow> world" where
  "on_message w m =
     (if author_bot m then w
      else if guild m = None then w
      else if strip (content m) = [] then w
      else discard (on_message_try w m) (message_id m))"

section \<open>Observations used in the statements\<close>

text \<open>What a resolution returned, when it did not raise.\<close>

definition result_of :: "failure + ('a \<times> world) \<Rightarrow> 'a option" where
  "result_of r = (case r of Inl e \<Rightarrow> None | Inr (x, w) \<Rightarrow> Some x)"

text \<open>
  The candidate list of a resolution, owned personas first, and the explicit trigger
  match (tiers 1 to 3) that the splitter accepts for one line.
\<close>

definition candidates :: "world \<Rightarrow> nat \<Rightarrow> nat \<Rightarrow> CharacterAlias list" where
  "candidates w uid gid =
     (case get_user_aliases w uid gid of Inl e \<Rightarrow> [] | Inr user_aliases \<Rightarrow> user_aliases)
     @ map sd_alias (get_shared_aliases_for_user w uid gid)"

definition explicit_trigger_match :: "world \<Rightarrow> nat \<Rightarrow> nat \<Rightarrow> string \<Rightarrow> bool" where
  "explicit_trigger_match w uid gid text =
     (list_ex (\<lambda>od. matches_trigger text (od_personal_trigger od)) (get_user_overrides w uid gid)
      \<or> list_ex (\<lambda>a. matches_trigger text (trigger a)) (candidates w uid gid))"

definition line_match :: "world \<Rightarrow> nat \<Rightarrow> nat \<Rightarrow> string \<Rightarrow> (CharacterAlias \<times> string) option" where
  "line_match w uid gid line =
     (case line_override_match line (get_user_overrides w uid gid) of
        Some r \<Rightarrow> Some r
      | None \<Rightarrow> line_alias_match line (candidates w uid gid))"

text \<open>
  The endpoints the platform holds for a channel, and whether the platform will answer
  the next request of a kind with success.
\<close>

definition channel_hooks :: "world \<Rightarrow> nat \<Rightarrow> webhook list" where
  "channel_hooks w ch = filter (\<lambda>h. webhook_channel h = ch) (webhooks w)"

definition next_ok :: "world \<Rightarrow> api \<Rightarrow> bool" where
  "next_ok w k = (case outcomes w k of [] \<Rightarrow> True | r # rs \<Rightarrow> r = None)"

section \<open>Example data\<close>

text \<open>
  Operator 100 in guild 500 owns \<open>K\<close> and \<open>Max\<close>; operator 200 owns \<open>Mira\<close>,
  \<open>Quinn\<close> and \<open>Rook\<close>, on which operator 100 has personal triggers.  The rows of
  both tables stand in the order of their creation, which is also the order of the
  persona ids.
\<close>

definition ex_alias :: "nat \<Rightarrow> nat \<Rightarrow> string \<Rightarrow> string \<Rightarrow> CharacterAlias" where
  "ex_alias i uid nm trg =
     \<lparr>alias_id = i, user_id = uid, guild_id = 500, name = nm, trigger = trg,
      avatar_url = ''https://cdn.discordapp.com/embed/avatars/0.png'', group_name = None,
      subgroup = None, message_count = None\<rparr>"

definition K :: CharacterAlias where "K = ex_alias 11 100 ''K'' ''k:''"
definition Max :: CharacterAlias where "Max = ex_alias 12 100 ''Max'' ''m.''"
definition Mira :: CharacterAlias where "Mira = ex_alias 13 200 ''Mira'' ''mira:''"
definition Quinn :: CharacterAlias where "Quinn = ex_alias 14 200 ''Quinn'' ''q:''"
definition Rook :: CharacterAlias where "Rook = ex_alias 15 200 ''Rook'' ''rook:''"

definition ex_override :: "nat \<Rightarrow> string \<Rightarrow> AliasOverride" where
  "ex_override i trg =
     \<lparr>ov_user_id = 100, ov_guild_id = 500, original_alias_id = i, personal_trigger = trg,
      is_active = True\<rparr>"

definition ex_world :: world where
  "ex_world =
     \<lparr>webhook_cache = Map.empty, processing_messages = {}, auto_proxy = Map.empty,
      session_ok = True, query_ok = True, ilike = (\<lambda>v p. lower v = lower p),
      character_aliases = [K, Max, Mira, Quinn, Rook],
      alias_overrides = [ex_override 13 ''m.'', ex_override 14 ''m'', ex_override 15 ''r.''],
      shared_groups = [], shared_group_permissions = [],
      webhooks = [], next_webhook_id = 0, outcomes = (\<lambda>k. []), calls = []\<rparr>"

definition ex_message :: "nat \<Rightarrow> string \<Rightarrow> message" where
  "ex_message i text =
     \<lparr>message_id = i, author_id = 100, author_bot = False, guild = Some 500,
      msg_channel = \<lparr>channel_id = 7, parent = None\<rparr>, content = text\<rparr>"

definition ex_od :: "string \<Rightarrow> CharacterAlias \<Rightarrow> override_data" where
  "ex_od trg a =
     \<lparr>od_personal_trigger = trg, od_alias = a, od_override = ex_override (alias_id a) trg\<rparr>"

text \<open>The example world with the override on \<open>Mira\<close> as operator 100's only one.\<close>

definition ex_one_override :: world where
  "ex_one_override = ex_world\<lparr>alias_overrides := [ex_override 13 ''m.'']\<rparr>"

text \<open>The example world with operator 100's sticky cell set for guild 500.\<close>

definition ex_sticky :: "CharacterAlias option \<Rightarrow> world" where
  "ex_sticky a = ex_world\<lparr>auto_proxy := [100 \<mapsto> \<lparr>ap_guild_id = 500, ap_alias = a\<rparr>]\<rparr>"

text \<open>
  Channel 7 with fifteen endpoints of another integration, and the platform answers to
  the coming creation and listing requests.
\<close>

definition ex_other_hook :: "nat \<Rightarrow> webhook" where
  "ex_other_hook i = \<lparr>webhook_id = i, webhook_name = ''GitHub'', webhook_channel = 7\<rparr>"

definition ex_full :: "failure option list \<Rightarrow> failure option list \<Rightarrow> world" where
  "ex_full cs ls =
     ex_world\<lparr>webhooks := map ex_other_hook
                [21, 22, 23, 24, 25, 26, 27, 28, 29, 30, 31, 32, 33, 34, 35],
              next_webhook_id := 36,
              outcomes := (\<lambda>k. [])(CreateWebhook := cs, ListWebhooks := ls)\<rparr>"

section \<open>Facts about the text primitives\<close>

lemmas ex_defs = ex_world_def ex_message_def K_def Max_def Mira_def Quinn_def Rook_def
  ex_alias_def ex_override_def ex_od_def

lemmas text_defs = lower_def lower_char_def isspace_def lstrip_def rstrip_def strip_def
  startswith_def endswith_def slice_1_m1_def bracket_trigger_def paren_trigger_def
  matches_trigger_def extract_content_def

lemma lower_char_lbracket [simp]: "lower_char CHR ''['' = CHR ''[''"
  by (simp add: lower_char_def)

lemma lower_char_rbracket [simp]: "lower_char CHR '']'' = CHR '']''"
  by (simp add: lower_char_def)

lemma lower_char_lparen [simp]: "lower_char CHR ''('' = CHR ''(''"
  by (simp add: lower_char_def)

lemma lower_char_rparen [simp]: "lower_char CHR '')'' = CHR '')''"
  by (simp add: lower_char_def)

lemma startswith_Cons1 [simp]: "startswith (c # s) [d] = (c = d)"
  by (simp add: startswith_def)

lemma endswith_snoc1 [simp]: "endswith (s @ [c]) [d] = (c = d)"
  by (simp add: endswith_def)

lemma endswith_Cons_snoc1 [simp]: "endswith (a # s @ [c]) [d] = (c = d)"
  using endswith_snoc1 [of "a # s" c d] by simp

lemma endswith_two [simp]: "endswith [a, b] [d] = (b = d)"
  using endswith_snoc1 [of "[a]" b d] by simp

lemma startswith_Nil1 [simp]: "\<not> startswith [] [d]"
  by (simp add: startswith_def)

lemma bracket_not_paren: "bracket_trigger t \<Longrightarrow> \<not> paren_trigger t"
  by (cases t) (auto simp: bracket_trigger_def paren_trigger_def)

lemma bracket_nonempty: "bracket_trigger (lower t) \<Longrightarrow> t \<noteq> []"
  by (auto simp: bracket_trigger_def lower_def)

lemma paren_nonempty: "paren_trigger (lower t) \<Longrightarrow> t \<noteq> []"
  by (auto simp: paren_trigger_def lower_def)

lemma lower_wrap: "lower (c # s @ [d]) = lower_char c # lower s @ [lower_char d]"
  by (simp add: lower_def)

lemma slice_wrap [simp]: "slice_1_m1 (c # s @ [d]) = s"
  by (simp add: slice_1_m1_def)

section \<open>Bracket and parenthesis triggers\<close>

text \<open>
  C4.  For a non-empty \<open>s\<close> and a trigger of the bracket class, the text \<open>[s]\<close> matches
  and the extracted content is \<open>s\<close> stripped; the same for the parenthesis class and
  \<open>(s)\<close>; and the two-character texts \<open>[]\<close> and \<open>()\<close> match no trigger of either
  class.
\<close>

theorem bracket_paren_wrap_extract:
  "(s \<noteq> [] \<and> bracket_trigger (lower t) \<longrightarrow>
      matches_trigger (''['' @ s @ '']'') t \<and> extract_content (''['' @ s @ '']'') t = strip s) \<and>
   (s \<noteq> [] \<and> paren_trigger (lower t) \<longrightarrow>
      matches_trigger (''('' @ s @ '')'') t \<and> extract_content (''('' @ s @ '')'') t = strip s) \<and>
   (bracket_trigger (lower t) \<or> paren_trigger (lower t) \<longrightarrow>
      \<not> matches_trigger ''[]'' t \<and> \<not> matches_trigger ''()'' t)"
proof (intro conjI impI)
  assume h: "s \<noteq> [] \<and> bracket_trigger (lower t)"
  then have t: "t \<noteq> []" by (simp add: bracket_nonempty)
  from h t show "matches_trigger (''['' @ s @ '']'') t"
    by (simp add: matches_trigger_def lower_wrap Let_def)
  from h t show "extract_content (''['' @ s @ '']'') t = strip s"
    by (simp add: extract_content_def lower_wrap Let_def)
next
  assume h: "s \<noteq> [] \<and> paren_trigger (lower t)"
  then have t: "t \<noteq> []" by (simp add: paren_nonempty)
  from h have nb: "\<not> bracket_trigger (lower t)" using bracket_not_paren by blast
  from h t nb show "matches_trigger (''('' @ s @ '')'') t"
    by (simp add: matches_trigger_def lower_wrap Let_def)
  from h t nb show "extract_content (''('' @ s @ '')'') t = strip s"
    by (simp add: extract_content_def lower_wrap Let_def)
next
  assume h: "bracket_trigger (lower t) \<or> paren_trigger (lower t)"
  then show "\<not> matches_trigger ''[]'' t"
    by (auto simp: matches_trigger_def Let_def lower_def dest: bracket_not_paren)
next
  assume h: "bracket_trigger (lower t) \<or> paren_trigger (lower t)"
  then show "\<not> matches_trigger ''()'' t"
    by (auto simp: matches_trigger_def Let_def lower_def dest: bracket_not_paren)
qed

theorem bracket_paren_wrap_extract_witness:
  "matches_trigger ''[ Hi all ]'' ''[text]'' \<and> extract_content ''[ Hi all ]'' ''[text]'' = ''Hi all''
   \<and> matches_trigger ''(x)'' ''(T)'' \<and> extract_content ''(x)'' ''(T)'' = ''x''
   \<and> \<not> matches_trigger ''[]'' ''[text]'' \<and> \<not> matches_trigger ''()'' ''[text]''"
proof -
  have b: "bracket_trigger (lower ''[text]'')" by (simp add: text_defs)
  have p: "paren_trigger (lower ''(T)'')" by (simp add: text_defs)
  have s1: "strip '' Hi all '' = ''Hi all''" by (simp add: text_defs)
  have s2: "strip ''x'' = ''x''" by (simp add: text_defs)
  show ?thesis
    using bracket_paren_wrap_extract [of "'' Hi all ''" "''[text]''"]
      bracket_paren_wrap_extract [of "''x''" "''(T)''"] b p s1 s2
    by simp
qed

section \<open>Override priority\<close>

lemma ex_overrides: "get_user_overrides ex_world 100 500 =
   [ex_od ''m.'' Mira, ex_od ''m'' Quinn, ex_od ''r.'' Rook]"
  by (simp add: get_user_overrides_def ex_defs)

lemma ex_user_aliases: "get_user_aliases ex_world 100 500 = Inr [K, Max]"
  by (simp add: get_user_aliases_def ex_defs)

lemma ex_shared: "get_shared_aliases_for_user ex_world 100 500 = []"
  by (simp add: get_shared_aliases_for_user_def ex_defs)

lemma first_override_match_skip:
  "\<forall>x \<in> set pre. \<not> matches_trigger text (od_personal_trigger x) \<Longrightarrow>
   first_override_match text (pre @ ods) = first_override_match text ods"
  by (induction pre) auto

lemma overrides_nonempty_db: "get_user_overrides w uid gid \<noteq> [] \<Longrightarrow> session_ok w \<and> query_ok w"
  by (auto simp: get_user_overrides_def split: if_splits)

lemma ex_one_overrides: "get_user_overrides ex_one_override 100 500 = [ex_od ''m.'' Mira]"
  by (simp add: get_user_overrides_def ex_one_override_def ex_defs)

text \<open>
  C1, as amended.  For a guild message of a non-bot author: when the text matches the
  personal trigger of an active override of the author, and no override earlier in the
  store's order matches the text, the resolution returns that override's persona with
  the content extracted by the personal trigger, whatever the triggers of the persona
  itself and of the owned and shared personas are.
\<close>

theorem override_first_match_wins:
  assumes g: "guild m = Some gid" and nb: "\<not> author_bot m"
    and ovs: "get_user_overrides w (author_id m) gid = pre @ od # post"
    and pre: "\<forall>x \<in> set pre. \<not> matches_trigger (content m) (od_personal_trigger x)"
    and hit: "matches_trigger (content m) (od_personal_trigger od)"
  shows "check_message_for_alias w m =
           Inr (Some (od_alias od, extract_content (content m) (od_personal_trigger od)),
                update_auto_proxy w (author_id m) gid (od_alias od))"
proof -
  from ovs have "get_user_overrides w (author_id m) gid \<noteq> []" by simp
  then have db: "session_ok w \<and> query_ok w" by (rule overrides_nonempty_db)
  then obtain us where us: "get_user_aliases w (author_id m) gid = Inr us"
    by (simp add: get_user_aliases_def)
  have "first_override_match (content m) (pre @ od # post) =
          Some (od_alias od, extract_content (content m) (od_personal_trigger od))"
    using pre hit by (simp add: first_override_match_skip)
  then show ?thesis
    using g nb us ovs by (simp add: check_message_for_alias_def)
qed

text \<open>
  With the override on \<open>Mira\<close> as the only one, the text \<open>m. hi\<close> resolves to
  \<open>Mira\<close> although it also matches the trigger of the owned persona \<open>Max\<close>.  With the
  three overrides, the text \<open>r. hi\<close> matches the override on \<open>Rook\<close> alone and
  resolves to \<open>Rook\<close>, in whatever order the store returns the rows.
\<close>

theorem override_first_match_wins_witness:
  "matches_trigger ''m. hi'' (trigger Max)
   \<and> result_of (check_message_for_alias ex_one_override (ex_message 5 ''m. hi'')) =
       Some (Some (Mira, ''hi''))
   \<and> result_of (check_message_for_alias ex_world (ex_message 5 ''r. hi'')) =
       Some (Some (Rook, ''hi''))"
proof -
  let ?m = "ex_message 5 ''m. hi''" and ?n = "ex_message 5 ''r. hi''"
  have g: "guild ?m = Some 500" "guild ?n = Some 500"
    and nb: "\<not> author_bot ?m" "\<not> author_bot ?n"
    by (simp_all add: ex_message_def)
  have ovs1: "get_user_overrides ex_one_override (author_id ?m) 500 = [] @ ex_od ''m.'' Mira # []"
    by (simp add: ex_one_overrides ex_message_def)
  have pre1: "\<forall>x \<in> set []. \<not> matches_trigger (content ?m) (od_personal_trigger x)"
    by simp
  have hit1: "matches_trigger (content ?m) (od_personal_trigger (ex_od ''m.'' Mira))"
    by (simp add: ex_message_def ex_od_def text_defs)
  have ovs2: "get_user_overrides ex_world (author_id ?n) 500 =
               [ex_od ''m.'' Mira, ex_od ''m'' Quinn] @ ex_od ''r.'' Rook # []"
    by (simp add: ex_overrides ex_message_def)
  have pre2: "\<forall>x \<in> set [ex_od ''m.'' Mira, ex_od ''m'' Quinn].
                \<not> matches_trigger (content ?n) (od_personal_trigger x)"
    by (simp add: ex_message_def ex_od_def text_defs)
  have hit2: "matches_trigger (content ?n) (od_personal_trigger (ex_od ''r.'' Rook))"
    by (simp add: ex_message_def ex_od_def text_defs)
  have own: "matches_trigger ''m. hi'' (trigger Max)"
    by (simp add: ex_defs text_defs)
  have ex: "extract_content ''m. hi'' ''m.'' = ''hi''" "extract_content ''r. hi'' ''r.'' = ''hi''"
    by (simp_all add: text_defs)
  show ?thesis
    using override_first_match_wins [OF g(1) nb(1) ovs1 pre1 hit1]
      override_first_match_wins [OF g(2) nb(2) ovs2 pre2 hit2] own ex
    by (simp add: result_of_def ex_od_def ex_message_def)
qed

text \<open>
  The claim as stated fails when two overrides match: operator 100 has an active
  override \<open>m\<close> on \<open>Quinn\<close>, the text \<open>m. hi\<close> matches it, and the resolution selects
  \<open>Mira\<close>, whose override \<open>m.\<close> comes first, with the content \<open>hi\<close>.
\<close>

theorem override_on_persona_not_selected:
  "get_user_overrides ex_world 100 500 = [ex_od ''m.'' Mira, ex_od ''m'' Quinn, ex_od ''r.'' Rook]
   \<and> matches_trigger ''m. hi'' (od_personal_trigger (ex_od ''m'' Quinn))
   \<and> result_of (check_message_for_alias ex_world (ex_message 5 ''m. hi'')) =
        Some (Some (Mira, ''hi''))
   \<and> Mira \<noteq> Quinn"
proof -
  have a: "matches_trigger ''m. hi'' (od_personal_trigger (ex_od ''m'' Quinn))"
    by (simp add: ex_od_def text_defs)
  have q: "matches_trigger ''m. hi'' ''m.''" by (simp add: text_defs)
  have ex: "extract_content ''m. hi'' ''m.'' = ''hi''" by (simp add: text_defs)
  have b: "result_of (check_message_for_alias ex_world (ex_message 5 ''m. hi'')) =
        Some (Some (Mira, ''hi''))"
    unfolding check_message_for_alias_def
    by (simp add: ex_overrides ex_user_aliases ex_shared q ex result_of_def ex_message_def
        ex_od_def)
  have c: "Mira \<noteq> Quinn" by (simp add: ex_defs)
  from a b c ex_overrides show ?thesis by simp
qed

section \<open>Sticky update on a match\<close>

lemma first_override_match_None:
  "(first_override_match text ovs = None) =
   (\<not> list_ex (\<lambda>od. matches_trigger text (od_personal_trigger od)) ovs)"
  by (induction ovs) auto

lemma first_alias_match_None:
  "(first_alias_match text as = None) = (\<not> list_ex (\<lambda>a. matches_trigger text (trigger a)) as)"
  by (induction as) auto

lemma sticky_state_update_same:
  "sticky_state w uid gid \<noteq> Disabled \<Longrightarrow>
   sticky_state (update_auto_proxy w uid gid a) uid gid = EnabledWith a"
  by (auto simp: sticky_state_def update_auto_proxy_def split: option.splits if_splits)

lemma candidates_Inr:
  "get_user_aliases w uid gid = Inr us \<Longrightarrow>
   candidates w uid gid = us @ map sd_alias (get_shared_aliases_for_user w uid gid)"
  by (simp add: candidates_def)

lemma check_message_for_alias_cases:
  assumes g: "guild m = Some gid" and nb: "\<not> author_bot m"
    and us: "get_user_aliases w (author_id m) gid = Inr us"
  shows "check_message_for_alias w m =
     (case first_override_match (content m) (get_user_overrides w (author_id m) gid) of
        Some (a, c) \<Rightarrow> Inr (Some (a, c), update_auto_proxy w (author_id m) gid a)
      | None \<Rightarrow>
         (case first_alias_match (content m) (candidates w (author_id m) gid) of
            Some (a, c) \<Rightarrow> Inr (Some (a, c), update_auto_proxy w (author_id m) gid a)
          | None \<Rightarrow>
             (case auto_proxy_alias w (author_id m) gid of
                Some a \<Rightarrow> Inr (Some (a, content m), w)
              | None \<Rightarrow> Inr (None, w))))"
  unfolding candidates_Inr [OF us] using g nb us by (simp add: check_message_for_alias_def)

lemma check_message_for_alias_Some_guard:
  "check_message_for_alias w m = Inr (Some r, w') \<Longrightarrow> guild m = Some gid \<Longrightarrow>
   \<not> author_bot m \<and> (\<exists>us. get_user_aliases w (author_id m) gid = Inr us)"
  by (auto simp: check_message_for_alias_def split: if_splits sum.splits)

text \<open>
  C5.  When a resolution returns a persona: if some override, owned or shared trigger
  matches the text (tiers 1 to 3) and the operator's state for the guild is not
  \<open>Disabled\<close>, the state afterwards is \<open>EnabledWith\<close> the returned persona; if no such
  trigger matches (tier 4), nothing changes: the returned persona is the sticky one and
  the content is the whole text.
\<close>

theorem sticky_follows_explicit_match:
  assumes g: "guild m = Some gid"
    and r: "check_message_for_alias w m = Inr (Some (a, c), w')"
  shows "(explicit_trigger_match w (author_id m) gid (content m)
            \<and> sticky_state w (author_id m) gid \<noteq> Disabled
          \<longrightarrow> sticky_state w' (author_id m) gid = EnabledWith a)
       \<and> (\<not> explicit_trigger_match w (author_id m) gid (content m)
          \<longrightarrow> w' = w \<and> sticky_state w (author_id m) gid = EnabledWith a \<and> c = content m)"
proof -
  from r g obtain us where nb: "\<not> author_bot m"
    and us: "get_user_aliases w (author_id m) gid = Inr us"
    using check_message_for_alias_Some_guard by blast
  note eq = check_message_for_alias_cases [OF g nb us]
  let ?ov = "first_override_match (content m) (get_user_overrides w (author_id m) gid)"
  let ?al = "first_alias_match (content m) (candidates w (author_id m) gid)"
  show ?thesis
  proof (cases ?ov)
    case (Some p)
    then have ex: "explicit_trigger_match w (author_id m) gid (content m)"
      using first_override_match_None [of "content m" "get_user_overrides w (author_id m) gid"]
      by (simp add: explicit_trigger_match_def)
    from Some r eq have "w' = update_auto_proxy w (author_id m) gid a"
      by (cases p) simp
    with ex show ?thesis by (simp add: sticky_state_update_same)
  next
    case ovN: None
    show ?thesis
    proof (cases ?al)
      case (Some p)
      then have ex: "explicit_trigger_match w (author_id m) gid (content m)"
        using first_alias_match_None [of "content m" "candidates w (author_id m) gid"]
        by (simp add: explicit_trigger_match_def)
      from Some ovN r eq have "w' = update_auto_proxy w (author_id m) gid a"
        by (cases p) simp
      with ex show ?thesis by (simp add: sticky_state_update_same)
    next
      case alN: None
      from ovN alN have nex: "\<not> explicit_trigger_match w (author_id m) gid (content m)"
        by (simp add: explicit_trigger_match_def first_override_match_None first_alias_match_None)
      from ovN alN r eq have "w' = w \<and> auto_proxy_alias w (author_id m) gid = Some a \<and> c = content m"
        by (auto split: option.splits)
      then have "w' = w \<and> sticky_state w (author_id m) gid = EnabledWith a \<and> c = content m"
        by (auto simp: auto_proxy_alias_def sticky_state_def split: option.splits if_splits)
      with nex show ?thesis by simp
    qed
  qed
qed

lemma overrides_auto_proxy [simp]:
  "get_user_overrides (w\<lparr>auto_proxy := ap\<rparr>) uid gid = get_user_overrides w uid gid"
  by (simp add: get_user_overrides_def)

lemma user_aliases_auto_proxy [simp]:
  "get_user_aliases (w\<lparr>auto_proxy := ap\<rparr>) uid gid = get_user_aliases w uid gid"
  by (simp add: get_user_aliases_def)

lemma aliases_of_share_auto_proxy [simp]:
  "aliases_of_share (w\<lparr>auto_proxy := ap\<rparr>) gid sp = aliases_of_share w gid sp"
  by (cases sp) (auto simp: aliases_of_share_def)

lemma shared_auto_proxy [simp]:
  "get_shared_aliases_for_user (w\<lparr>auto_proxy := ap\<rparr>) uid gid = get_shared_aliases_for_user w uid gid"
  by (simp add: get_shared_aliases_for_user_def cong: map_cong)

lemma candidates_auto_proxy [simp]:
  "candidates (w\<lparr>auto_proxy := ap\<rparr>) uid gid = candidates w uid gid"
  by (simp add: candidates_def)

lemma ex_candidates: "candidates ex_world 100 500 = [K, Max]"
  by (simp add: candidates_def ex_user_aliases ex_shared)

lemma ex_first_override_k: "first_override_match ''k: hi'' (get_user_overrides ex_world 100 500) = None"
  by (simp add: ex_overrides ex_od_def text_defs)

lemma ex_first_alias_k: "first_alias_match ''k: hi'' (candidates ex_world 100 500) = Some (K, ''hi'')"
  by (simp add: ex_candidates K_def Max_def ex_alias_def text_defs)

lemma ex_first_override_chat:
  "first_override_match ''just chatting'' (get_user_overrides ex_world 100 500) = None"
  by (simp add: ex_overrides ex_od_def text_defs)

lemma ex_first_alias_chat:
  "first_alias_match ''just chatting'' (candidates ex_world 100 500) = None"
  by (simp add: ex_candidates K_def Max_def ex_alias_def text_defs)

text \<open>
  With the cell armed but unset, \<open>k: hi\<close> resolves to \<open>K\<close> through an owned trigger and
  the cell becomes \<open>K\<close>; with the cell on \<open>Mira\<close>, a text without trigger resolves to
  \<open>Mira\<close> and the state is the same afterwards.
\<close>

theorem sticky_follows_explicit_match_witness:
  "sticky_state (ex_sticky None) 100 500 = EnabledUnset
   \<and> check_message_for_alias (ex_sticky None) (ex_message 5 ''k: hi'') =
       Inr (Some (K, ''hi''), update_auto_proxy (ex_sticky None) 100 500 K)
   \<and> sticky_state (update_auto_proxy (ex_sticky None) 100 500 K) 100 500 = EnabledWith K
   \<and> check_message_for_alias (ex_sticky (Some Mira)) (ex_message 6 ''just chatting'') =
       Inr (Some (Mira, ''just chatting''), ex_sticky (Some Mira))"
proof -
  let ?m = "ex_message 5 ''k: hi''" and ?n = "ex_message 6 ''just chatting''"
  have g: "guild ?m = Some 500" "guild ?n = Some 500"
    and nb: "\<not> author_bot ?m" "\<not> author_bot ?n"
    and au: "author_id ?m = 100" "author_id ?n = 100"
    and ct: "content ?m = ''k: hi''" "content ?n = ''just chatting''"
    by (simp_all add: ex_message_def)
  have us: "get_user_aliases (ex_sticky None) (author_id ?m) 500 = Inr [K, Max]"
    "get_user_aliases (ex_sticky (Some Mira)) (author_id ?n) 500 = Inr [K, Max]"
    by (simp_all add: ex_sticky_def au ex_user_aliases)
  have r1: "check_message_for_alias (ex_sticky None) ?m =
              Inr (Some (K, ''hi''), update_auto_proxy (ex_sticky None) 100 500 K)"
    unfolding check_message_for_alias_cases [OF g(1) nb(1) us(1)] au ct
    by (simp add: ex_sticky_def ex_first_override_k ex_first_alias_k)
  have r2: "check_message_for_alias (ex_sticky (Some Mira)) ?n =
              Inr (Some (Mira, ''just chatting''), ex_sticky (Some Mira))"
    unfolding check_message_for_alias_cases [OF g(2) nb(2) us(2)] au ct
    by (simp add: ex_sticky_def ex_first_override_chat ex_first_alias_chat auto_proxy_alias_def)
  have s1: "sticky_state (ex_sticky None) 100 500 = EnabledUnset"
    by (simp add: sticky_state_def ex_sticky_def)
  have e1: "explicit_trigger_match (ex_sticky None) 100 500 ''k: hi''"
    using ex_first_alias_k first_alias_match_None [of "''k: hi''" "candidates ex_world 100 500"]
    by (simp add: explicit_trigger_match_def ex_sticky_def)
  have e2: "\<not> explicit_trigger_match (ex_sticky (Some Mira)) 100 500 ''just chatting''"
    using ex_first_alias_chat ex_first_override_chat
    by (simp add: explicit_trigger_match_def ex_sticky_def first_alias_match_None
        first_override_match_None)
  show ?thesis
    using sticky_follows_explicit_match [OF g(1) r1] sticky_follows_explicit_match [OF g(2) r2]
      r1 r2 s1 e1 e2
    by (simp add: au ct)
qed

section \<open>Scope of the sticky state\<close>

lemma sticky_state_update_other:
  assumes "uid' \<noteq> uid \<or> gid' \<noteq> gid"
  shows "sticky_state (update_auto_proxy w uid gid a) uid' gid' = sticky_state w uid' gid'"
proof (cases "auto_proxy w uid")
  case None
  then show ?thesis by (simp add: update_auto_proxy_def)
next
  case (Some d)
  show ?thesis
  proof (cases "ap_guild_id d = gid")
    case False
    with Some show ?thesis by (simp add: update_auto_proxy_def)
  next
    case True
    show ?thesis
    proof (cases "uid' = uid")
      case False
      with Some True show ?thesis by (simp add: update_auto_proxy_def sticky_state_def)
    next
      case u: True
      with assms have "gid' \<noteq> gid" by simp
      with Some True u show ?thesis by (simp add: update_auto_proxy_def sticky_state_def)
    qed
  qed
qed

lemma check_message_for_alias_state:
  assumes "check_message_for_alias w m = Inr (r, w')" and g: "guild m = Some gid"
  shows "w' = w \<or> (\<exists>a. w' = update_auto_proxy w (author_id m) gid a)"
proof (cases "author_bot m")
  case True
  with assms show ?thesis by (simp add: check_message_for_alias_def)
next
  case nb: False
  show ?thesis
  proof (cases "get_user_aliases w (author_id m) gid")
    case (Inl e)
    with assms nb show ?thesis by (simp add: check_message_for_alias_def)
  next
    case (Inr us)
    show ?thesis
      using assms(1) unfolding check_message_for_alias_cases [OF g nb Inr]
      by (auto split: option.splits)
  qed
qed

lemma parse_line_state:
  "parse_line uid gid ovs als l (ps, w) = (qs, w') \<Longrightarrow>
   w' = w \<or> (\<exists>a. w' = update_auto_proxy w uid gid a)"
  by (auto simp: parse_line_def Let_def split: if_splits option.splits)

lemma parse_lines_state:
  "parse_lines uid gid ovs als ls (ps, w) = (qs, w') \<Longrightarrow> uid' \<noteq> uid \<or> gid' \<noteq> gid \<Longrightarrow>
   sticky_state w' uid' gid' = sticky_state w uid' gid'"
proof (induction ls arbitrary: ps w)
  case Nil
  then show ?case by simp
next
  case (Cons l ls)
  obtain ps1 w1 where step: "parse_line uid gid ovs als l (ps, w) = (ps1, w1)"
    by (cases "parse_line uid gid ovs als l (ps, w)")
  from Cons.prems(1) step have "parse_lines uid gid ovs als ls (ps1, w1) = (qs, w')"
    by simp
  then have "sticky_state w' uid' gid' = sticky_state w1 uid' gid'"
    using Cons.IH Cons.prems(2) by blast
  moreover have "sticky_state w1 uid' gid' = sticky_state w uid' gid'"
    using parse_line_state [OF step] Cons.prems(2) sticky_state_update_other by metis
  ultimately show ?case by simp
qed

lemma parse_multiline_aliases_state:
  assumes r: "parse_multiline_aliases w m = Inr (r, w')" and g: "guild m = Some gid"
    and o: "uid' \<noteq> author_id m \<or> gid' \<noteq> gid"
  shows "sticky_state w' uid' gid' = sticky_state w uid' gid'"
proof -
  have "w' = w \<or> (\<exists>ovs als ls qs. parse_lines (author_id m) gid ovs als ls ([], w) = (qs, w'))"
    using r g unfolding parse_multiline_aliases_def Let_def
    by (simp split: if_splits sum.splits prod.splits) blast+
  then show ?thesis using parse_lines_state o by blast
qed

text \<open>
  C3, as amended.  The dictionary holds one cell per operator, tagged with one guild.
  A resolution (single-line or multi-line) in one guild leaves the operator's state in
  every other guild, and every other operator's state, as it was.  A successful
  \<open>enable_auto_proxy\<close> in one guild replaces the operator's cell: the state in that guild
  is enabled and the operator's state in every other guild is \<open>Disabled\<close>; a failed one
  changes nothing.  \<open>disable_auto_proxy\<close> takes no guild and leaves the operator
  \<open>Disabled\<close> in every guild.  No operation touches another operator's state.
\<close>

theorem sticky_cell_per_operator:
  "(guild m = Some gid \<and> check_message_for_alias w m = Inr (r, w')
      \<and> (uid \<noteq> author_id m \<or> gid' \<noteq> gid)
    \<longrightarrow> sticky_state w' uid gid' = sticky_state w uid gid')
   \<and> (guild m = Some gid \<and> parse_multiline_aliases w m = Inr (rs, w')
      \<and> (uid \<noteq> author_id m \<or> gid' \<noteq> gid)
    \<longrightarrow> sticky_state w' uid gid' = sticky_state w uid gid')
   \<and> (enable_auto_proxy w uid gid alias_name = Inr (True, w')
    \<longrightarrow> sticky_state w' uid gid \<noteq> Disabled
        \<and> (gid' \<noteq> gid \<longrightarrow> sticky_state w' uid gid' = Disabled)
        \<and> (uid' \<noteq> uid \<longrightarrow> sticky_state w' uid' gid' = sticky_state w uid' gid'))
   \<and> (enable_auto_proxy w uid gid alias_name = Inr (False, w') \<longrightarrow> w' = w)
   \<and> (disable_auto_proxy w uid = (b, w')
    \<longrightarrow> sticky_state w' uid gid' = Disabled
        \<and> (uid' \<noteq> uid \<longrightarrow> sticky_state w' uid' gid' = sticky_state w uid' gid'))"
proof (intro conjI impI)
  assume "guild m = Some gid \<and> check_message_for_alias w m = Inr (r, w')
      \<and> (uid \<noteq> author_id m \<or> gid' \<noteq> gid)"
  then show "sticky_state w' uid gid' = sticky_state w uid gid'"
    using check_message_for_alias_state [of w m r w' gid]
      sticky_state_update_other [of uid "author_id m" gid' gid w]
    by auto
next
  assume "guild m = Some gid \<and> parse_multiline_aliases w m = Inr (rs, w')
      \<and> (uid \<noteq> author_id m \<or> gid' \<noteq> gid)"
  then show "sticky_state w' uid gid' = sticky_state w uid gid'"
    using parse_multiline_aliases_state [of w m rs w' gid uid gid'] by simp
next
  assume e: "enable_auto_proxy w uid gid alias_name = Inr (True, w')"
  then have "\<exists>a. w' = w\<lparr>auto_proxy := (auto_proxy w)(uid \<mapsto> \<lparr>ap_guild_id = gid, ap_alias = a\<rparr>)\<rparr>"
    by (auto simp: enable_auto_proxy_def split: if_splits sum.splits option.splits)
  then obtain a where w': "w' = w\<lparr>auto_proxy := (auto_proxy w)(uid \<mapsto> \<lparr>ap_guild_id = gid, ap_alias = a\<rparr>)\<rparr>"
    by blast
  show "sticky_state w' uid gid \<noteq> Disabled"
    by (cases a) (simp_all add: w' sticky_state_def)
  show "gid' \<noteq> gid \<Longrightarrow> sticky_state w' uid gid' = Disabled"
    by (simp add: w' sticky_state_def)
  show "uid' \<noteq> uid \<Longrightarrow> sticky_state w' uid' gid' = sticky_state w uid' gid'"
    by (simp add: w' sticky_state_def)
next
  assume "enable_auto_proxy w uid gid alias_name = Inr (False, w')"
  then show "w' = w"
    by (auto simp: enable_auto_proxy_def split: if_splits sum.splits option.splits)
next
  assume d: "disable_auto_proxy w uid = (b, w')"
  then have w': "w' = w \<and> auto_proxy w uid = None \<or> w' = w\<lparr>auto_proxy := (auto_proxy w)(uid := None)\<rparr>"
    by (auto simp: disable_auto_proxy_def split: if_splits)
  then show "sticky_state w' uid gid' = Disabled"
    by (auto simp: sticky_state_def)
  from w' show "uid' \<noteq> uid \<Longrightarrow> sticky_state w' uid' gid' = sticky_state w uid' gid'"
    by (auto simp: sticky_state_def)
qed

text \<open>
  The claim as stated fails: operator 100 has \<open>K\<close> sticky in guild 500; enabling
  auto-proxy in guild 600 makes the state in guild 500 \<open>Disabled\<close>.
\<close>

theorem enable_elsewhere_clears_guild:
  "sticky_state (ex_sticky (Some K)) 100 500 = EnabledWith K
   \<and> enable_auto_proxy (ex_sticky (Some K)) 100 600 [] =
       Inr (True, ex_world\<lparr>auto_proxy := [100 \<mapsto> \<lparr>ap_guild_id = 600, ap_alias = None\<rparr>]\<rparr>)
   \<and> sticky_state (ex_world\<lparr>auto_proxy := [100 \<mapsto> \<lparr>ap_guild_id = 600, ap_alias = None\<rparr>]\<rparr>)
        100 500 = Disabled"
  by (simp add: sticky_state_def enable_auto_proxy_def ex_sticky_def)

section \<open>The multi-line splitter\<close>

lemma rstrip_idem: "rstrip (rstrip s) = rstrip s"
  by (simp add: rstrip_def)

lemma rstrip_prefix: "\<exists>u. t = rstrip t @ u"
proof -
  have "rev (takeWhile isspace (rev t) @ dropWhile isspace (rev t)) = t"
    by (simp only: takeWhile_dropWhile_id rev_rev_ident)
  then have "rstrip t @ rev (takeWhile isspace (rev t)) = t"
    by (simp only: rev_append rstrip_def)
  then show ?thesis by metis
qed

lemma lstrip_rstrip_lstrip: "lstrip (rstrip (lstrip s)) = rstrip (lstrip s)"
proof (cases "rstrip (lstrip s)")
  case Nil
  then show ?thesis by (simp add: lstrip_def)
next
  case (Cons x xs)
  obtain u where u: "lstrip s = rstrip (lstrip s) @ u" using rstrip_prefix by blast
  with Cons have t: "lstrip s = x # xs @ u" by simp
  then have "dropWhile isspace s \<noteq> []" by (simp add: lstrip_def)
  then have "\<not> isspace (hd (dropWhile isspace s))" by (rule hd_dropWhile)
  with t have "\<not> isspace x" by (simp add: lstrip_def)
  with Cons show ?thesis by (simp add: lstrip_def)
qed

lemma strip_idem: "strip (strip s) = strip s"
  by (simp add: strip_def lstrip_rstrip_lstrip rstrip_idem)

lemma line_override_match_content:
  "line_override_match line ovs = Some (a, c) \<Longrightarrow> strip c \<noteq> []"
  by (induction ovs) (auto split: if_splits)

lemma line_alias_match_content:
  "line_alias_match line as = Some (a, c) \<Longrightarrow> strip c \<noteq> []"
  by (induction as) (auto split: if_splits)

lemma parse_line_out:
  "parse_line uid gid ovs als l (ps, w) = (qs, w') \<Longrightarrow>
   qs = ps \<or> (\<exists>a c. qs = ps @ [(a, c)] \<and> strip c \<noteq> [])"
  unfolding parse_line_def Let_def
  by (auto split: if_splits option.splits
      dest: line_override_match_content line_alias_match_content simp: strip_idem)

lemma parse_lines_nonblank:
  "parse_lines uid gid ovs als ls (ps, w) = (qs, w') \<Longrightarrow>
   \<forall>(a, c) \<in> set ps. strip c \<noteq> [] \<Longrightarrow> \<forall>(a, c) \<in> set qs. strip c \<noteq> []"
proof (induction ls arbitrary: ps w)
  case Nil
  then show ?case by simp
next
  case (Cons l ls)
  obtain ps1 w1 where step: "parse_line uid gid ovs als l (ps, w) = (ps1, w1)"
    by (cases "parse_line uid gid ovs als l (ps, w)")
  from Cons.prems(1) step have rest: "parse_lines uid gid ovs als ls (ps1, w1) = (qs, w')"
    by simp
  have "\<forall>(a, c) \<in> set ps1. strip c \<noteq> []"
    using parse_line_out [OF step] Cons.prems(2) by auto
  with rest show ?case using Cons.IH by blast
qed

lemma parse_lines_append:
  "parse_lines uid gid ovs als (xs @ ys) acc =
   parse_lines uid gid ovs als ys (parse_lines uid gid ovs als xs acc)"
  by (induction xs arbitrary: acc) simp_all

lemma parse_line_acc:
  "parse_line uid gid ovs als l (ps, w) =
   (ps @ fst (parse_line uid gid ovs als l ([], w)), snd (parse_line uid gid ovs als l ([], w)))"
  by (simp add: parse_line_def Let_def split: option.splits)

lemma parse_lines_acc:
  "parse_lines uid gid ovs als ls (ps, w) =
   (ps @ fst (parse_lines uid gid ovs als ls ([], w)), snd (parse_lines uid gid ovs als ls ([], w)))"
proof (induction ls arbitrary: ps w)
  case Nil
  then show ?case by simp
next
  case (Cons l ls)
  obtain p1 w1 where s0: "parse_line uid gid ovs als l ([], w) = (p1, w1)"
    by (cases "parse_line uid gid ovs als l ([], w)")
  have s1: "parse_line uid gid ovs als l (ps, w) = (ps @ p1, w1)"
    using parse_line_acc [of uid gid ovs als l ps w] s0 by simp
  show ?case
    using Cons.IH [of "ps @ p1" w1] Cons.IH [of p1 w1] s0 s1 by simp
qed

lemma sticky_state_update_enabled:
  "sticky_state w uid gid \<noteq> Disabled \<Longrightarrow>
   sticky_state (update_auto_proxy w uid' gid' a) uid gid \<noteq> Disabled"
  by (cases "uid' = uid \<and> gid' = gid")
     (auto simp: sticky_state_update_same sticky_state_update_other)

lemma parse_lines_enabled:
  "sticky_state w uid gid \<noteq> Disabled \<Longrightarrow>
   sticky_state (snd (parse_lines uid gid ovs als ls (ps, w))) uid gid \<noteq> Disabled"
proof (induction ls arbitrary: ps w)
  case Nil
  then show ?case by simp
next
  case (Cons l ls)
  obtain ps1 w1 where step: "parse_line uid gid ovs als l (ps, w) = (ps1, w1)"
    by (cases "parse_line uid gid ovs als l (ps, w)")
  have "sticky_state w1 uid gid \<noteq> Disabled"
    using parse_line_state [OF step] Cons.prems sticky_state_update_enabled by metis
  then show ?case using Cons.IH [of w1 ps1] step by simp
qed

lemma auto_proxy_alias_update:
  "sticky_state w uid gid \<noteq> Disabled \<Longrightarrow>
   auto_proxy_alias (update_auto_proxy w uid gid a) uid gid = Some a"
  by (auto simp: sticky_state_def update_auto_proxy_def auto_proxy_alias_def
      split: option.splits if_splits)

lemma line_override_match_Nil [simp]: "line_override_match [] ovs = None"
  by (induction ovs) (simp_all add: matches_trigger_def)

lemma line_alias_match_Nil [simp]: "line_alias_match [] as = None"
  by (induction as) (simp_all add: matches_trigger_def)

lemma parse_line_explicit:
  assumes "line_match w0 uid gid (strip l) = Some (a, c)"
  shows "parse_line uid gid (get_user_overrides w0 uid gid) (candidates w0 uid gid) l (ps, w) =
           (ps @ [(a, c)], update_auto_proxy w uid gid a)"
proof -
  have ne: "strip l \<noteq> []"
    using assms by (auto simp: line_match_def)
  show ?thesis
    using assms ne by (auto simp: parse_line_def line_match_def Let_def split: option.splits)
qed

lemma parse_line_fallback:
  assumes "line_match w0 uid gid (strip l) = None" and "strip l \<noteq> []"
    and "auto_proxy_alias w uid gid = Some a"
  shows "parse_line uid gid (get_user_overrides w0 uid gid) (candidates w0 uid gid) l (ps, w) =
           (ps @ [(a, strip l)], w)"
  using assms by (auto simp: parse_line_def line_match_def Let_def split: option.splits)

lemma parse_multiline_aliases_cases:
  assumes g: "guild m = Some gid" and nb: "\<not> author_bot m"
    and us: "get_user_aliases w (author_id m) gid = Inr us"
    and len: "length (split_on (CHR 0x0A) (content m)) > 1"
  shows "parse_multiline_aliases w m =
     (case parse_lines (author_id m) gid (get_user_overrides w (author_id m) gid)
             (candidates w (author_id m) gid) (split_on (CHR 0x0A) (content m)) ([], w) of
        (parsed_messages, w') \<Rightarrow>
          (if parsed_messages \<noteq> [] then Inr (Some parsed_messages, w') else Inr (None, w')))"
  unfolding candidates_Inr [OF us] using g nb us len
  by (simp add: parse_multiline_aliases_def Let_def)

text \<open>
  C6, as amended.  In a multi-line message processed with auto-proxy enabled for the
  operator and the guild, when a line matches persona \<open>A\<close> through an explicit trigger
  and the content extracted from it is not blank, and the next line is not blank and has
  no such match, the splitter's list holds, after the pairs of the earlier lines, the
  pair of \<open>A\<close> for the first line and then \<open>A\<close> with the whole stripped second line.
\<close>

theorem sticky_visible_to_next_line:
  assumes g: "guild m = Some gid" and nb: "\<not> author_bot m"
    and us: "get_user_aliases w (author_id m) gid = Inr us"
    and en: "sticky_state w (author_id m) gid \<noteq> Disabled"
    and ls: "split_on (CHR 0x0A) (content m) = pre @ l1 # l2 # post"
    and m1: "line_match w (author_id m) gid (strip l1) = Some (A, c)"
    and l2: "strip l2 \<noteq> []"
    and m2: "line_match w (author_id m) gid (strip l2) = None"
  shows "\<exists>qs w'. parse_multiline_aliases w m =
           Inr (Some (fst (parse_lines (author_id m) gid (get_user_overrides w (author_id m) gid)
                             (candidates w (author_id m) gid) pre ([], w))
                      @ (A, c) # (A, strip l2) # qs), w')"
proof -
  let ?u = "author_id m"
  let ?ovs = "get_user_overrides w ?u gid" and ?als = "candidates w ?u gid"
  obtain ps w1 where p0: "parse_lines ?u gid ?ovs ?als pre ([], w) = (ps, w1)"
    by (cases "parse_lines ?u gid ?ovs ?als pre ([], w)")
  have en1: "sticky_state w1 ?u gid \<noteq> Disabled"
    using parse_lines_enabled [OF en, of ?ovs ?als pre "[]"] p0 by simp
  have p1: "parse_line ?u gid ?ovs ?als l1 (ps, w1) =
              (ps @ [(A, c)], update_auto_proxy w1 ?u gid A)"
    using m1 by (rule parse_line_explicit)
  have ap: "auto_proxy_alias (update_auto_proxy w1 ?u gid A) ?u gid = Some A"
    using en1 by (rule auto_proxy_alias_update)
  have p2: "parse_line ?u gid ?ovs ?als l2 (ps @ [(A, c)], update_auto_proxy w1 ?u gid A) =
              ((ps @ [(A, c)]) @ [(A, strip l2)], update_auto_proxy w1 ?u gid A)"
    using m2 l2 ap by (rule parse_line_fallback)
  obtain qs w' where p3:
    "parse_lines ?u gid ?ovs ?als post ([], update_auto_proxy w1 ?u gid A) = (qs, w')"
    by (cases "parse_lines ?u gid ?ovs ?als post ([], update_auto_proxy w1 ?u gid A)")
  have p3': "parse_lines ?u gid ?ovs ?als post
               ((ps @ [(A, c)]) @ [(A, strip l2)], update_auto_proxy w1 ?u gid A) =
             (((ps @ [(A, c)]) @ [(A, strip l2)]) @ qs, w')"
    using parse_lines_acc [of ?u gid ?ovs ?als post "(ps @ [(A, c)]) @ [(A, strip l2)]"
        "update_auto_proxy w1 ?u gid A"] p3 by simp
  have all: "parse_lines ?u gid ?ovs ?als (pre @ l1 # l2 # post) ([], w) =
               (ps @ (A, c) # (A, strip l2) # qs, w')"
    using p0 p1 p2 p3' by (simp add: parse_lines_append)
  have len: "length (split_on (CHR 0x0A) (content m)) > 1"
    using ls by simp
  have "parse_multiline_aliases w m = Inr (Some (ps @ (A, c) # (A, strip l2) # qs), w')"
    unfolding parse_multiline_aliases_cases [OF g nb us len] ls all by simp
  with p0 show ?thesis by simp
qed

lemma line_match_auto_proxy [simp]:
  "line_match (w\<lparr>auto_proxy := ap\<rparr>) uid gid line = line_match w uid gid line"
  by (simp add: line_match_def cong: option.case_cong)

lemma ex_split_hello_world:
  "split_on (CHR 0x0A) (''k: hello'' @ [CHR 0x0A] @ ''world'') = [''k: hello'', ''world'']"
  by simp

lemma ex_split_k_hello:
  "split_on (CHR 0x0A) (''k:'' @ [CHR 0x0A] @ ''hello'') = [''k:'', ''hello'']"
  by simp

lemma ex_strip_words:
  "strip ''k: hello'' = ''k: hello''" "strip ''world'' = ''world''"
  "strip ''k:'' = ''k:''" "strip ''hello'' = ''hello''" "strip ''k: world'' = ''k: world''"
  by (simp_all add: text_defs)

lemma ex_line_match_k_hello: "line_match ex_world 100 500 ''k: hello'' = Some (K, ''hello'')"
  by (simp add: line_match_def ex_overrides ex_candidates ex_od_def K_def Max_def ex_alias_def
      text_defs)

lemma ex_line_match_k_world: "line_match ex_world 100 500 ''k: world'' = Some (K, ''world'')"
  by (simp add: line_match_def ex_overrides ex_candidates ex_od_def K_def Max_def ex_alias_def
      text_defs)

lemma ex_line_match_world: "line_match ex_world 100 500 ''world'' = None"
  by (simp add: line_match_def ex_overrides ex_candidates ex_od_def K_def Max_def ex_alias_def
      text_defs)

lemma ex_line_match_hello: "line_match ex_world 100 500 ''hello'' = None"
  by (simp add: line_match_def ex_overrides ex_candidates ex_od_def K_def Max_def ex_alias_def
      text_defs)

lemma ex_line_match_k: "line_match ex_world 100 500 ''k:'' = None"
  by (simp add: line_match_def ex_overrides ex_candidates ex_od_def K_def Max_def ex_alias_def
      text_defs)

lemma ex_message_fields [simp]:
  "guild (ex_message i text) = Some 500" "\<not> author_bot (ex_message i text)"
  "author_id (ex_message i text) = 100" "content (ex_message i text) = text"
  "message_id (ex_message i text) = i"
  "msg_channel (ex_message i text) = \<lparr>channel_id = 7, parent = None\<rparr>"
  by (simp_all add: ex_message_def)

lemma ex_sticky_user_aliases [simp]: "get_user_aliases (ex_sticky a) 100 500 = Inr [K, Max]"
  by (simp add: ex_sticky_def ex_user_aliases)

lemma ex_sticky_state [simp]:
  "sticky_state (ex_sticky a) 100 500 = (case a of None \<Rightarrow> EnabledUnset | Some x \<Rightarrow> EnabledWith x)"
  by (simp add: ex_sticky_def sticky_state_def)

text \<open>
  With the cell armed but unset, the first line \<open>k: hello\<close> selects \<open>K\<close> and the second
  line \<open>world\<close>, which has no trigger, is resolved to \<open>K\<close> as well.
\<close>

theorem sticky_visible_to_next_line_witness:
  "\<exists>qs w'. parse_multiline_aliases (ex_sticky None)
              (ex_message 5 (''k: hello'' @ [CHR 0x0A] @ ''world'')) =
            Inr (Some ((K, ''hello'') # (K, ''world'') # qs), w')"
proof -
  let ?m = "ex_message 5 (''k: hello'' @ [CHR 0x0A] @ ''world'')"
  have g: "guild ?m = Some 500" and nb: "\<not> author_bot ?m" by simp_all
  have us: "get_user_aliases (ex_sticky None) (author_id ?m) 500 = Inr [K, Max]" by simp
  have en: "sticky_state (ex_sticky None) (author_id ?m) 500 \<noteq> Disabled" by simp
  have ls: "split_on (CHR 0x0A) (content ?m) = [] @ ''k: hello'' # ''world'' # []"
    using ex_split_hello_world by simp
  have m1: "line_match (ex_sticky None) (author_id ?m) 500 (strip ''k: hello'') = Some (K, ''hello'')"
    by (simp add: ex_sticky_def ex_strip_words ex_line_match_k_hello)
  have l2: "strip ''world'' \<noteq> []" by (simp add: ex_strip_words)
  have m2: "line_match (ex_sticky None) (author_id ?m) 500 (strip ''world'') = None"
    by (simp add: ex_sticky_def ex_strip_words ex_line_match_world)
  show ?thesis
    using sticky_visible_to_next_line [OF g nb us en ls m1 l2 m2]
    by (simp add: ex_strip_words)
qed

text \<open>
  C10.  Every pair returned by the splitter has content that is not blank after
  stripping.  A non-blank line without an accepted explicit match, which includes a line
  whose trigger match extracts blank content, goes to the sticky persona with the whole
  stripped line as content.
\<close>

theorem splitter_content_never_blank:
  "(parse_multiline_aliases w m = Inr (Some ps, w') \<longrightarrow> (\<forall>(a, c) \<in> set ps. strip c \<noteq> []))
   \<and> (strip l \<noteq> [] \<and> line_match w uid gid (strip l) = None
        \<and> auto_proxy_alias w uid gid = Some a
      \<longrightarrow> parse_line uid gid (get_user_overrides w uid gid) (candidates w uid gid) l (qs, w) =
            (qs @ [(a, strip l)], w))"
proof (intro conjI impI)
  assume r: "parse_multiline_aliases w m = Inr (Some ps, w')"
  have "\<exists>uid gid ovs als ls. parse_lines uid gid ovs als ls ([], w) = (ps, w')"
    using r unfolding parse_multiline_aliases_def Let_def
    by (simp split: option.splits if_splits sum.splits prod.splits) blast
  then show "\<forall>(a, c) \<in> set ps. strip c \<noteq> []" using parse_lines_nonblank by fastforce
next
  assume "strip l \<noteq> [] \<and> line_match w uid gid (strip l) = None
        \<and> auto_proxy_alias w uid gid = Some a"
  then show "parse_line uid gid (get_user_overrides w uid gid) (candidates w uid gid) l (qs, w) =
            (qs @ [(a, strip l)], w)"
    using parse_line_fallback [of w uid gid l w a qs] by simp
qed

lemma ex_auto_proxy_alias [simp]: "auto_proxy_alias (ex_sticky a) 100 500 = a"
  by (simp add: ex_sticky_def auto_proxy_alias_def)

lemma ex_parse_k_hello:
  "parse_multiline_aliases (ex_sticky (Some Mira)) (ex_message 5 (''k:'' @ [CHR 0x0A] @ ''hello''))
     = Inr (Some [(Mira, ''k:''), (Mira, ''hello'')], ex_sticky (Some Mira))"
proof -
  let ?m = "ex_message 5 (''k:'' @ [CHR 0x0A] @ ''hello'')"
  let ?w = "ex_sticky (Some Mira)"
  have g: "guild ?m = Some 500" and nb: "\<not> author_bot ?m" by simp_all
  have us: "get_user_aliases ?w (author_id ?m) 500 = Inr [K, Max]" by simp
  have len: "length (split_on (CHR 0x0A) (content ?m)) > 1"
    using ex_split_k_hello by simp
  have s1: "parse_line 100 500 (get_user_overrides ?w 100 500) (candidates ?w 100 500) ''k:'' ([], ?w)
              = ([] @ [(Mira, strip ''k:'')], ?w)"
    by (rule parse_line_fallback)
       (simp_all add: ex_sticky_def ex_strip_words ex_line_match_k auto_proxy_alias_def)
  have s2: "parse_line 100 500 (get_user_overrides ?w 100 500) (candidates ?w 100 500) ''hello''
              ([(Mira, ''k:'')], ?w) = ([(Mira, ''k:'')] @ [(Mira, strip ''hello'')], ?w)"
    by (rule parse_line_fallback)
       (simp_all add: ex_sticky_def ex_strip_words ex_line_match_hello auto_proxy_alias_def)
  show ?thesis
    unfolding parse_multiline_aliases_cases [OF g nb us len]
    using ex_split_k_hello s1 s2 by (simp add: ex_strip_words)
qed

text \<open>
  The line \<open>k:\<close> matches the trigger of \<open>K\<close> with empty content; with \<open>Mira\<close> sticky
  it is emitted as \<open>Mira\<close> saying \<open>k:\<close>.
\<close>

theorem splitter_content_never_blank_witness:
  "matches_trigger ''k:'' (trigger K) \<and> extract_content ''k:'' (trigger K) = []
   \<and> parse_multiline_aliases (ex_sticky (Some Mira))
        (ex_message 5 (''k:'' @ [CHR 0x0A] @ ''hello'')) =
       Inr (Some [(Mira, ''k:''), (Mira, ''hello'')], ex_sticky (Some Mira))
   \<and> strip ''k:'' \<noteq> [] \<and> strip ''hello'' \<noteq> []
   \<and> parse_line 100 500 (get_user_overrides (ex_sticky (Some Mira)) 100 500)
        (candidates (ex_sticky (Some Mira)) 100 500) ''k:'' ([], ex_sticky (Some Mira)) =
       ([(Mira, ''k:'')], ex_sticky (Some Mira))"
proof -
  let ?w = "ex_sticky (Some Mira)"
  have a: "matches_trigger ''k:'' (trigger K)" "extract_content ''k:'' (trigger K) = []"
    by (simp_all add: K_def ex_alias_def text_defs)
  have b: "strip ''k:'' \<noteq> [] \<and> line_match ?w 100 500 (strip ''k:'') = None
            \<and> auto_proxy_alias ?w 100 500 = Some Mira"
    by (simp add: ex_sticky_def ex_strip_words ex_line_match_k auto_proxy_alias_def)
  show ?thesis
    using splitter_content_never_blank
      [of ?w "ex_message 5 (''k:'' @ [CHR 0x0A] @ ''hello'')" "[(Mira, ''k:''), (Mira, ''hello'')]"
          ?w "''k:''" 100 500 Mira "[]"]
      ex_parse_k_hello a b
    by (simp add: ex_strip_words)
qed

lemma ex_check_bare_trigger:
  "check_message_for_alias (ex_sticky (Some Mira)) (ex_message 5 ''k:'') =
     Inr (Some (K, []), update_auto_proxy (ex_sticky (Some Mira)) 100 500 K)"
proof -
  let ?m = "ex_message 5 ''k:''"
  have g: "guild ?m = Some 500" and nb: "\<not> author_bot ?m" by simp_all
  have us: "get_user_aliases (ex_sticky (Some Mira)) (author_id ?m) 500 = Inr [K, Max]" by simp
  have o: "first_override_match ''k:'' (get_user_overrides ex_world 100 500) = None"
    by (simp add: ex_overrides ex_od_def text_defs)
  have a: "first_alias_match ''k:'' (candidates ex_world 100 500) = Some (K, [])"
    by (simp add: ex_candidates K_def Max_def ex_alias_def text_defs)
  show ?thesis
    unfolding check_message_for_alias_cases [OF g nb us]
    using o a by (simp add: ex_sticky_def)
qed

text \<open>
  The claim as stated fails when the match extracts blank content.  With \<open>Mira\<close>
  sticky, the line \<open>k:\<close> matches the trigger of \<open>K\<close> (the single-line resolver
  returns \<open>K\<close> for it, with empty content) and the next line \<open>hello\<close> matches no
  trigger; the splitter resolves the second line to \<open>Mira\<close>, not to \<open>K\<close>.
\<close>

theorem bare_trigger_line_keeps_sticky:
  "sticky_state (ex_sticky (Some Mira)) 100 500 = EnabledWith Mira
   \<and> explicit_trigger_match (ex_sticky (Some Mira)) 100 500 ''k:''
   \<and> result_of (check_message_for_alias (ex_sticky (Some Mira)) (ex_message 5 ''k:'')) =
       Some (Some (K, []))
   \<and> \<not> explicit_trigger_match (ex_sticky (Some Mira)) 100 500 ''hello''
   \<and> parse_multiline_aliases (ex_sticky (Some Mira))
        (ex_message 5 (''k:'' @ [CHR 0x0A] @ ''hello'')) =
       Inr (Some [(Mira, ''k:''), (Mira, ''hello'')], ex_sticky (Some Mira))
   \<and> K \<noteq> Mira"
proof -
  have e1: "explicit_trigger_match (ex_sticky (Some Mira)) 100 500 ''k:''"
    by (simp add: explicit_trigger_match_def ex_sticky_def ex_candidates K_def Max_def
        ex_alias_def text_defs)
  have e2: "\<not> explicit_trigger_match (ex_sticky (Some Mira)) 100 500 ''hello''"
    by (simp add: explicit_trigger_match_def ex_sticky_def ex_overrides ex_candidates ex_od_def
        K_def Max_def ex_alias_def text_defs)
  have r: "result_of (check_message_for_alias (ex_sticky (Some Mira)) (ex_message 5 ''k:'')) =
       Some (Some (K, []))"
    by (simp add: ex_check_bare_trigger result_of_def)
  have d: "K \<noteq> Mira" by (simp add: ex_defs)
  from e1 e2 r d ex_parse_k_hello show ?thesis by simp
qed

lemma ex_check_k_hi:
  "check_message_for_alias (ex_sticky None) (ex_message 5 ''k: hi'') =
     Inr (Some (K, ''hi''), update_auto_proxy (ex_sticky None) 100 500 K)"
proof -
  let ?m = "ex_message 5 ''k: hi''"
  have g: "guild ?m = Some 500" and nb: "\<not> author_bot ?m" by simp_all
  have us: "get_user_aliases (ex_sticky None) (author_id ?m) 500 = Inr [K, Max]" by simp
  show ?thesis
    unfolding check_message_for_alias_cases [OF g nb us]
    by (simp add: ex_sticky_def ex_first_override_k ex_first_alias_k)
qed

lemma ex_parse_hello_world:
  "parse_multiline_aliases (ex_sticky None) (ex_message 5 (''k: hello'' @ [CHR 0x0A] @ ''world''))
     = Inr (Some [(K, ''hello''), (K, ''world'')], update_auto_proxy (ex_sticky None) 100 500 K)"
proof -
  let ?m = "ex_message 5 (''k: hello'' @ [CHR 0x0A] @ ''world'')"
  let ?w = "ex_sticky None"
  let ?wk = "update_auto_proxy ?w 100 500 K"
  have g: "guild ?m = Some 500" and nb: "\<not> author_bot ?m" by simp_all
  have us: "get_user_aliases ?w (author_id ?m) 500 = Inr [K, Max]" by simp
  have len: "length (split_on (CHR 0x0A) (content ?m)) > 1"
    using ex_split_hello_world by simp
  have s1: "parse_line 100 500 (get_user_overrides ?w 100 500) (candidates ?w 100 500)
              ''k: hello'' ([], ?w) = ([] @ [(K, ''hello'')], ?wk)"
    by (rule parse_line_explicit) (simp add: ex_sticky_def ex_strip_words ex_line_match_k_hello)
  have ap: "auto_proxy_alias ?wk 100 500 = Some K"
    by (rule auto_proxy_alias_update) simp
  have s2: "parse_line 100 500 (get_user_overrides ?w 100 500) (candidates ?w 100 500) ''world''
              ([(K, ''hello'')], ?wk) = ([(K, ''hello'')] @ [(K, strip ''world'')], ?wk)"
    using _ _ ap by (rule parse_line_fallback)
      (simp_all add: ex_sticky_def ex_strip_words ex_line_match_world)
  show ?thesis
    unfolding parse_multiline_aliases_cases [OF g nb us len]
    using ex_split_hello_world s1 s2 by (simp add: ex_strip_words)
qed

lemma ex_enable_600:
  "enable_auto_proxy (ex_sticky (Some K)) 100 600 [] =
     Inr (True, ex_world\<lparr>auto_proxy := [100 \<mapsto> \<lparr>ap_guild_id = 600, ap_alias = None\<rparr>]\<rparr>)"
  by (simp add: enable_auto_proxy_def ex_sticky_def)

lemma ex_enable_nobody: "enable_auto_proxy ex_world 100 500 ''Nobody'' = Inr (False, ex_world)"
proof -
  have "get_alias_by_name ex_world 100 500 ''Nobody'' = Inr None"
    by (simp add: get_alias_by_name_def ex_defs lower_def)
  then show ?thesis by (simp add: enable_auto_proxy_def)
qed

lemma ex_disable:
  "disable_auto_proxy (ex_sticky (Some K)) 100 = (True, ex_world\<lparr>auto_proxy := Map.empty\<rparr>)"
  by (simp add: disable_auto_proxy_def ex_sticky_def)

text \<open>
  Instances of the scoping theorem on the example world: a match in guild 500 leaves
  guild 600 as it was, enabling in guild 600 clears guild 500, a failed enable and a
  disable behave as stated, and operator 200 is never touched.
\<close>

theorem sticky_cell_per_operator_witness:
  "sticky_state (update_auto_proxy (ex_sticky None) 100 500 K) 100 600
     = sticky_state (ex_sticky None) 100 600
   \<and> sticky_state (ex_world\<lparr>auto_proxy := [100 \<mapsto> \<lparr>ap_guild_id = 600, ap_alias = None\<rparr>]\<rparr>)
        100 600 \<noteq> Disabled
   \<and> sticky_state (ex_world\<lparr>auto_proxy := [100 \<mapsto> \<lparr>ap_guild_id = 600, ap_alias = None\<rparr>]\<rparr>)
        100 500 = Disabled
   \<and> sticky_state (ex_world\<lparr>auto_proxy := [100 \<mapsto> \<lparr>ap_guild_id = 600, ap_alias = None\<rparr>]\<rparr>)
        200 500 = sticky_state (ex_sticky (Some K)) 200 500
   \<and> sticky_state (ex_world\<lparr>auto_proxy := Map.empty\<rparr>) 100 500 = Disabled
   \<and> sticky_state (ex_world\<lparr>auto_proxy := Map.empty\<rparr>) 200 500
       = sticky_state (ex_sticky (Some K)) 200 500"
proof -
  let ?w = "ex_sticky None"
  let ?wk = "update_auto_proxy ?w 100 500 K"
  let ?we = "ex_world\<lparr>auto_proxy := [100 \<mapsto> \<lparr>ap_guild_id = 600, ap_alias = None\<rparr>]\<rparr>"
  let ?wd = "ex_world\<lparr>auto_proxy := Map.empty\<rparr>"
  note a = sticky_cell_per_operator
      [where m = "ex_message 5 ''k: hi''" and gid = 500 and w = ?w and r = "Some (K, ''hi'')"
         and w' = ?wk and uid = 100 and gid' = 600]
  note b = sticky_cell_per_operator
      [where m = "ex_message 5 (''k: hello'' @ [CHR 0x0A] @ ''world'')" and gid = 500 and w = ?w
         and rs = "Some [(K, ''hello''), (K, ''world'')]" and w' = ?wk and uid = 100
         and gid' = 600]
  note c = sticky_cell_per_operator
      [where w = "ex_sticky (Some K)" and uid = 100 and gid = 600 and alias_name = "[]"
         and w' = ?we and gid' = 500 and uid' = 200]
  note d = sticky_cell_per_operator
      [where w = ex_world and uid = 100 and gid = 500 and alias_name = "''Nobody''"
         and w' = ex_world]
  note e = sticky_cell_per_operator
      [where w = "ex_sticky (Some K)" and uid = 100 and b = True and w' = ?wd and gid' = 500
         and uid' = 200]
  have g: "guild (ex_message 5 ''k: hi'') = Some 500"
    "guild (ex_message 5 (''k: hello'' @ [CHR 0x0A] @ ''world'')) = Some 500"
    "author_id (ex_message 5 ''k: hi'') = 100"
    "author_id (ex_message 5 (''k: hello'' @ [CHR 0x0A] @ ''world'')) = 100"
    by simp_all
  from a g ex_check_k_hi have 1: "sticky_state ?wk 100 600 = sticky_state ?w 100 600"
    by simp
  from b g ex_parse_hello_world have 2: "sticky_state ?wk 100 600 = sticky_state ?w 100 600"
    by simp
  from c ex_enable_600 have 3: "sticky_state ?we 100 600 \<noteq> Disabled
     \<and> sticky_state ?we 100 500 = Disabled
     \<and> sticky_state ?we 200 500 = sticky_state (ex_sticky (Some K)) 200 500"
    by simp
  from d ex_enable_nobody have 4: "ex_world = ex_world" by simp
  from e ex_disable have 5: "sticky_state ?wd 100 500 = Disabled
     \<and> sticky_state ?wd 200 500 = sticky_state (ex_sticky (Some K)) 200 500"
    by simp
  from 1 2 3 4 5 show ?thesis by simp
qed

section \<open>The dispatcher and its guard\<close>

lemma overrides_processing [simp]:
  "get_user_overrides (w\<lparr>processing_messages := X\<rparr>) uid gid = get_user_overrides w uid gid"
  by (simp add: get_user_overrides_def)

lemma user_aliases_processing [simp]:
  "get_user_aliases (w\<lparr>processing_messages := X\<rparr>) uid gid = get_user_aliases w uid gid"
  by (simp add: get_user_aliases_def)

lemma aliases_of_share_processing [simp]:
  "aliases_of_share (w\<lparr>processing_messages := X\<rparr>) gid sp = aliases_of_share w gid sp"
  by (cases sp) (auto simp: aliases_of_share_def)

lemma shared_processing [simp]:
  "get_shared_aliases_for_user (w\<lparr>processing_messages := X\<rparr>) uid gid =
   get_shared_aliases_for_user w uid gid"
  by (simp add: get_shared_aliases_for_user_def cong: map_cong)

lemma candidates_processing [simp]:
  "candidates (w\<lparr>processing_messages := X\<rparr>) uid gid = candidates w uid gid"
  by (simp add: candidates_def)

lemma line_match_processing [simp]:
  "line_match (w\<lparr>processing_messages := X\<rparr>) uid gid line = line_match w uid gid line"
  by (simp add: line_match_def cong: option.case_cong)

lemma update_auto_proxy_absent:
  "auto_proxy w uid = None \<Longrightarrow> update_auto_proxy w uid gid a = w"
  by (simp add: update_auto_proxy_def)

text \<open>
  C8.  Once handling has begun (the author is not a bot, the message is in a guild and
  its text is not blank), the message id is absent from the guard set when \<open>on_message\<close>
  is done, whatever the platform answers to the requests made on the way; and a message
  whose id was not in the set never leaves it there, the three early returns included.
\<close>

theorem guard_never_leaks:
  "(\<not> author_bot m \<and> guild m \<noteq> None \<and> strip (content m) \<noteq> []
      \<longrightarrow> message_id m \<notin> processing_messages (on_message w m))
   \<and> (message_id m \<notin> processing_messages w
      \<longrightarrow> message_id m \<notin> processing_messages (on_message w m))"
  by (simp add: on_message_def discard_def)

theorem guard_never_leaks_witness:
  "5 \<notin> processing_messages (on_message ex_world (ex_message 5 ''k: hi''))
   \<and> 42 \<notin> processing_messages
        (on_message (ex_world\<lparr>processing_messages := {42}\<rparr>) (ex_message 42 ''k: hi''))"
proof -
  have s: "strip ''k: hi'' \<noteq> []" by (simp add: text_defs)
  have p: "5 \<notin> processing_messages ex_world" by (simp add: ex_world_def)
  show ?thesis
    using guard_never_leaks [of "ex_message 5 ''k: hi''" ex_world]
      guard_never_leaks [of "ex_message 42 ''k: hi''" "ex_world\<lparr>processing_messages := {42}\<rparr>"]
      s p
    by simp
qed

text \<open>
  C7, where the code departs from the claim.  Message 42 is in flight.  A second event
  for it makes no request and resolves nothing, but the \<open>finally\<close> clause discards the
  id: the guard set is empty afterwards.
\<close>

theorem duplicate_discards_in_flight_entry:
  "42 \<in> processing_messages (ex_world\<lparr>processing_messages := {42}\<rparr>)
   \<and> on_message (ex_world\<lparr>processing_messages := {42}\<rparr>) (ex_message 42 ''k: hi'')
       = ex_world\<lparr>processing_messages := {}\<rparr>"
proof -
  have s: "strip ''k: hi'' \<noteq> []" by (simp add: text_defs)
  then show ?thesis
    by (simp add: on_message_def on_message_try_def discard_def)
qed

lemma ex_split_hello_k_world:
  "split_on (CHR 0x0A) (''k: hello'' @ [CHR 0x0A] @ ''k: world'') = [''k: hello'', ''k: world'']"
  by simp

lemma ex_parse_same_persona:
  "parse_multiline_aliases (ex_world\<lparr>processing_messages := X\<rparr>)
     (ex_message 5 (''k: hello'' @ [CHR 0x0A] @ ''k: world''))
     = Inr (Some [(K, ''hello''), (K, ''world'')], ex_world\<lparr>processing_messages := X\<rparr>)"
proof -
  let ?m = "ex_message 5 (''k: hello'' @ [CHR 0x0A] @ ''k: world'')"
  let ?w = "ex_world\<lparr>processing_messages := X\<rparr>"
  have g: "guild ?m = Some 500" and nb: "\<not> author_bot ?m" by simp_all
  have us: "get_user_aliases ?w (author_id ?m) 500 = Inr [K, Max]"
    by (simp add: ex_user_aliases)
  have len: "length (split_on (CHR 0x0A) (content ?m)) > 1"
    using ex_split_hello_k_world by simp
  have ap: "auto_proxy ?w 100 = None" by (simp add: ex_world_def)
  have s1: "parse_line 100 500 (get_user_overrides ?w 100 500) (candidates ?w 100 500)
              ''k: hello'' ([], ?w) = ([] @ [(K, ''hello'')], update_auto_proxy ?w 100 500 K)"
    by (rule parse_line_explicit) (simp add: ex_strip_words ex_line_match_k_hello)
  have s2: "parse_line 100 500 (get_user_overrides ?w 100 500) (candidates ?w 100 500)
              ''k: world'' ([(K, ''hello'')], ?w) =
              ([(K, ''hello'')] @ [(K, ''world'')], update_auto_proxy ?w 100 500 K)"
    by (rule parse_line_explicit) (simp add: ex_strip_words ex_line_match_k_world)
  show ?thesis
    unfolding parse_multiline_aliases_cases [OF g nb us len]
    using ex_split_hello_k_world s1 s2 by (simp add: update_auto_proxy_absent [OF ap])
qed

lemma ex_check_same_persona:
  "check_message_for_alias ex_world (ex_message 5 (''k: hello'' @ [CHR 0x0A] @ ''k: world''))
     = Inr (Some (K, ''hello'' @ [CHR 0x0A] @ ''k: world''), ex_world)"
proof -
  let ?m = "ex_message 5 (''k: hello'' @ [CHR 0x0A] @ ''k: world'')"
  have g: "guild ?m = Some 500" and nb: "\<not> author_bot ?m" by simp_all
  have us: "get_user_aliases ex_world (author_id ?m) 500 = Inr [K, Max]"
    by (simp add: ex_user_aliases)
  have ap: "auto_proxy ex_world 100 = None" by (simp add: ex_world_def)
  have o: "first_override_match (''k: hello'' @ [CHR 0x0A] @ ''k: world'')
             (get_user_overrides ex_world 100 500) = None"
    by (simp add: ex_overrides ex_od_def text_defs)
  have a: "first_alias_match (''k: hello'' @ [CHR 0x0A] @ ''k: world'')
             (candidates ex_world 100 500) = Some (K, ''hello'' @ [CHR 0x0A] @ ''k: world'')"
    by (simp add: ex_candidates K_def Max_def ex_alias_def text_defs)
  show ?thesis
    unfolding check_message_for_alias_cases [OF g nb us]
    using o a by (simp add: update_auto_proxy_absent [OF ap])
qed

text \<open>
  C2, where the code departs from the claim.  Both lines of the message carry the
  trigger of \<open>K\<close>: the splitter returns two pairs naming one persona, the single-line
  resolver would return \<open>K\<close> for the text, and \<open>on_message\<close> returns without any
  request: the state, with its empty log of requests, is what it was.
\<close>

theorem same_persona_multiline_is_dropped:
  "result_of (parse_multiline_aliases ex_world
       (ex_message 5 (''k: hello'' @ [CHR 0x0A] @ ''k: world''))) =
     Some (Some [(K, ''hello''), (K, ''world'')])
   \<and> result_of (check_message_for_alias ex_world
       (ex_message 5 (''k: hello'' @ [CHR 0x0A] @ ''k: world''))) =
     Some (Some (K, ''hello'' @ [CHR 0x0A] @ ''k: world''))
   \<and> on_message ex_world (ex_message 5 (''k: hello'' @ [CHR 0x0A] @ ''k: world'')) = ex_world
   \<and> calls ex_world = []"
proof -
  let ?m = "ex_message 5 (''k: hello'' @ [CHR 0x0A] @ ''k: world'')"
  have p0: "parse_multiline_aliases ex_world ?m
              = Inr (Some [(K, ''hello''), (K, ''world'')], ex_world)"
    using ex_parse_same_persona [of "processing_messages ex_world"] by simp
  have s: "strip (''k: hello'' @ [CHR 0x0A] @ ''k: world'') \<noteq> []" by (simp add: text_defs)
  have e: "processing_messages ex_world = {}" by (simp add: ex_world_def)
  have t: "on_message_try ex_world ?m = ex_world\<lparr>processing_messages := {5}\<rparr>"
    by (simp add: on_message_try_def Let_def e ex_parse_same_persona [simplified] K_def ex_alias_def)
  have o: "on_message ex_world ?m = ex_world"
    using s t e by (simp add: on_message_def discard_def)
  have c: "calls ex_world = []" by (simp add: ex_world_def)
  from p0 ex_check_same_persona o c show ?thesis by (simp add: result_of_def)
qed

lemma ex_parse_single_line:
  "parse_multiline_aliases (ex_world\<lparr>processing_messages := X\<rparr>) (ex_message 5 ''k:Hello there'')
     = Inr (None, ex_world\<lparr>processing_messages := X\<rparr>)"
  by (simp add: parse_multiline_aliases_def)

lemma ex_check_single_line:
  "check_message_for_alias (ex_world\<lparr>processing_messages := X\<rparr>) (ex_message 5 ''k:Hello there'')
     = Inr (Some (K, ''Hello there''), ex_world\<lparr>processing_messages := X\<rparr>)"
proof -
  let ?m = "ex_message 5 ''k:Hello there''"
  let ?w = "ex_world\<lparr>processing_messages := X\<rparr>"
  have g: "guild ?m = Some 500" and nb: "\<not> author_bot ?m" by simp_all
  have us: "get_user_aliases ?w (author_id ?m) 500 = Inr [K, Max]"
    by (simp add: ex_user_aliases)
  have ap: "auto_proxy ?w 100 = None" by (simp add: ex_world_def)
  have o: "first_override_match ''k:Hello there'' (get_user_overrides ex_world 100 500) = None"
    by (simp add: ex_overrides ex_od_def text_defs)
  have a: "first_alias_match ''k:Hello there'' (candidates ex_world 100 500)
             = Some (K, ''Hello there'')"
    by (simp add: ex_candidates K_def Max_def ex_alias_def text_defs)
  show ?thesis
    unfolding check_message_for_alias_cases [OF g nb us]
    using o a by (simp add: update_auto_proxy_absent [OF ap])
qed

lemma ex_send_as_K:
  "calls (snd (send_as_character
      (ex_world\<lparr>processing_messages := X, calls := cs\<rparr>)
      \<lparr>channel_id = 7, parent = None\<rparr> K ''Hello there'')) =
   cs @ [(CallListWebhooks 7, None), (CallCreateWebhook 7 ''Quest Keeper RP'', None),
     (CallSend \<lparr>webhook_id = 0, webhook_name = ''Quest Keeper RP'', webhook_channel = 7\<rparr>
        ''K'' ''https://cdn.discordapp.com/embed/avatars/0.png'' ''Hello there'' None, None)]"
  by (simp add: send_as_character_def get_or_create_webhook_def find_existing_webhook_def
      create_new_webhook_def channel_webhooks_def channel_create_webhook_def webhook_send_def
      increment_message_count_def cache_webhook_def request_def ex_world_def K_def ex_alias_def Let_def)

text \<open>
  A single-line message that the dispatcher does deliver: \<open>k:Hello there\<close> is deleted
  and posted as \<open>K\<close> with the content \<open>Hello there\<close>, through an endpoint created on
  the way.
\<close>

lemma ex_single_line_delivery:
  "calls (on_message ex_world (ex_message 5 ''k:Hello there'')) =
     [(CallDeleteMessage 5, None), (CallListWebhooks 7, None),
      (CallCreateWebhook 7 ''Quest Keeper RP'', None),
      (CallSend \<lparr>webhook_id = 0, webhook_name = ''Quest Keeper RP'', webhook_channel = 7\<rparr>
         ''K'' ''https://cdn.discordapp.com/embed/avatars/0.png'' ''Hello there'' None, None)]"
proof -
  have s: "strip ''k:Hello there'' \<noteq> []" by (simp add: text_defs)
  have e: "processing_messages ex_world = {}" "calls ex_world = []"
    "outcomes ex_world DeleteMessage = []"
    by (simp_all add: ex_world_def)
  have d: "message_delete (ex_world\<lparr>processing_messages := {5}\<rparr>) (ex_message 5 ''k:Hello there'')
      = (None, ex_world\<lparr>processing_messages := {5}, calls := [(CallDeleteMessage 5, None)]\<rparr>)"
    by (simp add: message_delete_def request_def e)
  obtain r w5 where sd: "send_as_character
      (ex_world\<lparr>processing_messages := {5}, calls := [(CallDeleteMessage 5, None)]\<rparr>)
      \<lparr>channel_id = 7, parent = None\<rparr> K ''Hello there'' = (r, w5)"
    by (cases "send_as_character
      (ex_world\<lparr>processing_messages := {5}, calls := [(CallDeleteMessage 5, None)]\<rparr>)
      \<lparr>channel_id = 7, parent = None\<rparr> K ''Hello there''")
  have c5: "calls w5 = [(CallDeleteMessage 5, None), (CallListWebhooks 7, None),
      (CallCreateWebhook 7 ''Quest Keeper RP'', None),
      (CallSend \<lparr>webhook_id = 0, webhook_name = ''Quest Keeper RP'', webhook_channel = 7\<rparr>
         ''K'' ''https://cdn.discordapp.com/embed/avatars/0.png'' ''Hello there'' None, None)]"
    using ex_send_as_K [where X = "{5}" and cs = "[(CallDeleteMessage 5, None)]"] sd by simp
  have r: "r = None"
    using sd
    by (simp add: send_as_character_def get_or_create_webhook_def find_existing_webhook_def
      create_new_webhook_def channel_webhooks_def channel_create_webhook_def webhook_send_def
      increment_message_count_def cache_webhook_def request_def ex_world_def K_def ex_alias_def Let_def)
  have t: "on_message_try ex_world (ex_message 5 ''k:Hello there'') = w5"
    by (simp add: on_message_try_def Let_def e ex_parse_single_line ex_check_single_line
        handle_potential_consolidation_def d sd r)
  show ?thesis
    using s t c5 by (simp add: on_message_def discard_def)
qed

section \<open>The delivery endpoint pool\<close>

lemma request_fail:
  "outcomes w k = Some e # rest \<Longrightarrow>
   request k c w = (Some e, w\<lparr>outcomes := (outcomes w)(k := rest), calls := calls w @ [(c, Some e)]\<rparr>)"
  by (simp add: request_def)

lemma request_calls: "map fst (calls (snd (request k c w))) = map fst (calls w) @ [c]"
  by (simp add: request_def split: list.splits)

lemma request_webhooks: "webhooks (snd (request k c w)) = webhooks w"
  by (simp add: request_def split: list.splits)

lemma request_outcomes_other:
  "k' \<noteq> k \<Longrightarrow> outcomes (snd (request k c w)) k' = outcomes w k'"
  by (simp add: request_def split: list.splits)

lemma request_ok:
  "next_ok w k \<Longrightarrow> fst (request k c w) = None"
  by (auto simp: request_def next_ok_def split: list.splits)

lemma request_not_ok:
  "\<not> next_ok w k \<Longrightarrow> \<exists>e. fst (request k c w) = Some e"
  by (auto simp: request_def next_ok_def split: list.splits)

lemma webhook_delete_calls:
  "map fst (calls (snd (webhook_delete w h))) = map fst (calls w) @ [CallDeleteWebhook h]"
  using request_calls [of DeleteWebhook "CallDeleteWebhook h" w]
  by (auto simp: webhook_delete_def split: prod.splits option.splits)

lemma webhook_delete_outcomes:
  "k \<noteq> DeleteWebhook \<Longrightarrow> outcomes (snd (webhook_delete w h)) k = outcomes w k"
  using request_outcomes_other [of k DeleteWebhook "CallDeleteWebhook h" w]
  by (auto simp: webhook_delete_def split: prod.splits option.splits)

lemma webhook_delete_hooks:
  "length (channel_hooks (snd (webhook_delete w h)) ch) \<le> length (channel_hooks w ch)"
proof -
  have "webhooks (snd (webhook_delete w h)) = webhooks w
        \<or> webhooks (snd (webhook_delete w h)) =
            filter (\<lambda>x. webhook_id x \<noteq> webhook_id h) (webhooks w)"
    using request_webhooks [of DeleteWebhook "CallDeleteWebhook h" w]
    by (auto simp: webhook_delete_def split: prod.splits option.splits)
  then show ?thesis
  proof
    assume "webhooks (snd (webhook_delete w h)) = webhooks w"
    then show ?thesis by (simp add: channel_hooks_def)
  next
    assume a: "webhooks (snd (webhook_delete w h)) =
            filter (\<lambda>x. webhook_id x \<noteq> webhook_id h) (webhooks w)"
    have "filter (\<lambda>x. webhook_channel x = ch) (filter (\<lambda>x. webhook_id x \<noteq> webhook_id h) (webhooks w))
          = filter (\<lambda>x. webhook_id x \<noteq> webhook_id h) (filter (\<lambda>x. webhook_channel x = ch) (webhooks w))"
      by (simp add: conj_commute)
    then show ?thesis
      unfolding channel_hooks_def a by (simp only: length_filter_le)
  qed
qed

lemma delete_each_calls:
  "map fst (calls (delete_each w hs)) = map fst (calls w) @ map CallDeleteWebhook hs"
  by (induction hs arbitrary: w) (simp_all add: webhook_delete_calls)

lemma delete_each_outcomes:
  "k \<noteq> DeleteWebhook \<Longrightarrow> outcomes (delete_each w hs) k = outcomes w k"
  by (induction hs arbitrary: w) (simp_all add: webhook_delete_outcomes)

lemma delete_each_hooks:
  "length (channel_hooks (delete_each w hs) ch) \<le> length (channel_hooks w ch)"
proof (induction hs arbitrary: w)
  case Nil
  then show ?case by simp
next
  case (Cons h hs)
  have "length (channel_hooks (delete_each (snd (webhook_delete w h)) hs) ch)
          \<le> length (channel_hooks (snd (webhook_delete w h)) ch)"
    by (rule Cons.IH)
  also have "\<dots> \<le> length (channel_hooks w ch)" by (rule webhook_delete_hooks)
  finally show ?case by simp
qed

lemma cleanup_recognized_calls:
  "map fst (calls (cleanup_recognized w hooks)) =
   map fst (calls w) @ map CallDeleteWebhook (tl (filter recognized hooks))"
proof (cases "length (filter recognized hooks) > 1")
  case True
  then show ?thesis by (simp add: cleanup_recognized_def delete_each_calls)
next
  case False
  then have "tl (filter recognized hooks) = []"
    by (cases "filter recognized hooks") simp_all
  with False show ?thesis by (simp add: cleanup_recognized_def)
qed

lemma cleanup_recognized_outcomes:
  "k \<noteq> DeleteWebhook \<Longrightarrow> outcomes (cleanup_recognized w hooks) k = outcomes w k"
  by (simp add: cleanup_recognized_def delete_each_outcomes Let_def)

lemma cleanup_recognized_hooks:
  "length (channel_hooks (cleanup_recognized w hooks) ch) \<le> length (channel_hooks w ch)"
  by (simp add: cleanup_recognized_def delete_each_hooks Let_def)

lemma cleanup_others_calls:
  "\<exists>extra. map fst (calls (cleanup_others w hooks)) = map fst (calls w) @ map CallDeleteWebhook extra
     \<and> length extra \<le> 5
     \<and> (\<exists>k. extra = take k (filter (\<lambda>h. \<not> recognized h) hooks))
     \<and> (length hooks \<ge> 15 \<longrightarrow> extra = take 5 (filter (\<lambda>h. \<not> recognized h) hooks))"
proof (cases "length hooks \<ge> 15")
  case True
  have "map fst (calls (cleanup_others w hooks)) =
          map fst (calls w) @ map CallDeleteWebhook (take 5 (filter (\<lambda>h. \<not> recognized h) hooks))"
    using True by (simp add: cleanup_others_def delete_each_calls)
  moreover have "length (take 5 (filter (\<lambda>h. \<not> recognized h) hooks)) \<le> 5" by simp
  ultimately show ?thesis by blast
next
  case False
  have "map fst (calls (cleanup_others w hooks)) = map fst (calls w) @ map CallDeleteWebhook []"
    using False by (simp add: cleanup_others_def)
  moreover have "[] = take 0 (filter (\<lambda>h. \<not> recognized h) hooks)" by simp
  ultimately show ?thesis using False by (metis list.size(3) zero_le)
qed

lemma cleanup_others_outcomes:
  "k \<noteq> DeleteWebhook \<Longrightarrow> outcomes (cleanup_others w hooks) k = outcomes w k"
  by (simp add: cleanup_others_def delete_each_outcomes)

lemma create_fail:
  "outcomes w CreateWebhook = Some e # rest \<Longrightarrow>
   channel_create_webhook w ch nm =
     (Inl e, w\<lparr>outcomes := (outcomes w)(CreateWebhook := rest),
                calls := calls w @ [(CallCreateWebhook ch nm, Some e)]\<rparr>)"
  by (simp add: channel_create_webhook_def request_fail)

lemma create_calls:
  "map fst (calls (snd (channel_create_webhook w ch nm))) =
   map fst (calls w) @ [CallCreateWebhook ch nm]"
  using request_calls [of CreateWebhook "CallCreateWebhook ch nm" w]
  by (auto simp: channel_create_webhook_def Let_def split: prod.splits option.splits)

lemma create_result:
  "(case outcomes w CreateWebhook of
      Some e # rs \<Rightarrow> fst (channel_create_webhook w ch nm) = Inl e
    | _ \<Rightarrow> \<exists>h. fst (channel_create_webhook w ch nm) = Inr h)"
  by (auto simp: channel_create_webhook_def request_def Let_def split: list.splits option.splits)

lemma list_calls:
  "map fst (calls (snd (channel_webhooks w ch))) = map fst (calls w) @ [CallListWebhooks ch]"
  using request_calls [of ListWebhooks "CallListWebhooks ch" w]
  by (auto simp: channel_webhooks_def split: prod.splits option.splits)

lemma list_outcomes:
  "k \<noteq> ListWebhooks \<Longrightarrow> outcomes (snd (channel_webhooks w ch)) k = outcomes w k"
  using request_outcomes_other [of k ListWebhooks "CallListWebhooks ch" w]
  by (auto simp: channel_webhooks_def split: prod.splits option.splits)

lemma list_webhooks: "webhooks (snd (channel_webhooks w ch)) = webhooks w"
  using request_webhooks [of ListWebhooks "CallListWebhooks ch" w]
  by (auto simp: channel_webhooks_def split: prod.splits option.splits)

lemma list_ok:
  "next_ok w ListWebhooks \<Longrightarrow> fst (channel_webhooks w ch) = Inr (channel_hooks w ch)"
  using request_ok [of w ListWebhooks "CallListWebhooks ch"]
    request_webhooks [of ListWebhooks "CallListWebhooks ch" w]
  by (auto simp: channel_webhooks_def channel_hooks_def split: prod.splits option.splits)

lemma list_not_ok:
  "\<not> next_ok w ListWebhooks \<Longrightarrow> \<exists>e. fst (channel_webhooks w ch) = Inl e"
  using request_not_ok [of w ListWebhooks "CallListWebhooks ch"]
  by (auto simp: channel_webhooks_def split: prod.splits option.splits)

text \<open>
  C9, as amended.  When the first creation request fails with the quota code 30007, the
  pool lists the channel's endpoints.  If that listing fails, the attempt fails and no
  second creation request is made.  Otherwise the requests made are, in order: the
  deletion of every recognized-name endpoint but the first listed, the deletion of at
  most 5 unrecognized endpoints (the first 5 listed whenever the channel still holds 15
  or more endpoints after the first pass), and exactly one more creation request.  When
  that one fails the attempt fails; when it succeeds the new endpoint is returned and
  cached.  Failed deletions are passed over.
\<close>

theorem quota_recovery:
  assumes q: "outcomes w CreateWebhook = Some e # rest"
    and h: "is_http e" and c: "code e = 30007"
  shows "(\<not> next_ok w ListWebhooks \<longrightarrow>
            fst (create_new_webhook w ch) = Inl PyException
          \<and> map fst (calls (snd (create_new_webhook w ch))) =
              map fst (calls w) @ [CallCreateWebhook ch ''Quest Keeper RP'', CallListWebhooks ch])
       \<and> (next_ok w ListWebhooks \<longrightarrow>
            (\<exists>extra.
               map fst (calls (snd (create_new_webhook w ch))) =
                 map fst (calls w)
                 @ [CallCreateWebhook ch ''Quest Keeper RP'', CallListWebhooks ch]
                 @ map CallDeleteWebhook (tl (filter recognized (channel_hooks w ch)) @ extra)
                 @ [CallCreateWebhook ch ''Quest Keeper RP'']
             \<and> length extra \<le> 5
             \<and> (\<exists>k. extra = take k (filter (\<lambda>h. \<not> recognized h) (channel_hooks w ch)))
             \<and> (15 \<le> length (channel_hooks
                        (cleanup_recognized
                           (snd (channel_webhooks
                                   (snd (channel_create_webhook w ch ''Quest Keeper RP'')) ch))
                           (channel_hooks w ch)) ch)
                 \<longrightarrow> extra = take 5 (filter (\<lambda>h. \<not> recognized h) (channel_hooks w ch))))
          \<and> (case rest of
                Some e3 # rs \<Rightarrow> fst (create_new_webhook w ch) = Inl PyException
              | _ \<Rightarrow> (\<exists>hk. fst (create_new_webhook w ch) = Inr hk
                         \<and> webhook_cache (snd (create_new_webhook w ch)) ch = Some hk)))"
proof -
  let ?nm = "''Quest Keeper RP''"
  let ?hooks = "channel_hooks w ch"
  define wa where "wa = w\<lparr>outcomes := (outcomes w)(CreateWebhook := rest),
                          calls := calls w @ [(CallCreateWebhook ch ?nm, Some e)]\<rparr>"
  have cf: "channel_create_webhook w ch ?nm = (Inl e, wa)"
    using create_fail [OF q, of ch ?nm] by (simp add: wa_def)
  have wa_list: "outcomes wa ListWebhooks = outcomes w ListWebhooks"
    and wa_create: "outcomes wa CreateWebhook = rest"
    and wa_hooks: "channel_hooks wa ch = ?hooks"
    and wa_calls: "map fst (calls wa) = map fst (calls w) @ [CallCreateWebhook ch ?nm]"
    by (simp_all add: wa_def channel_hooks_def)
  obtain lr wb where lst: "channel_webhooks wa ch = (lr, wb)"
    by (cases "channel_webhooks wa ch")
  have wb_calls: "map fst (calls wb) =
      map fst (calls w) @ [CallCreateWebhook ch ?nm, CallListWebhooks ch]"
    using list_calls [of wa ch] wa_calls lst by simp
  have wb_create: "outcomes wb CreateWebhook = rest"
    using list_outcomes [of CreateWebhook wa ch] wa_create lst by simp
  have wb_hooks: "channel_hooks wb ch = ?hooks"
    using list_webhooks [of wa ch] wa_hooks lst by (simp add: channel_hooks_def)
  have ok_eq: "next_ok wa ListWebhooks = next_ok w ListWebhooks"
    by (simp add: next_ok_def wa_list)
  have still_eq: "snd (channel_webhooks (snd (channel_create_webhook w ch ?nm)) ch) = wb"
    by (simp add: cf lst)
  show ?thesis
  proof (intro conjI impI)
    assume n: "\<not> next_ok w ListWebhooks"
    then obtain e2 where e2: "lr = Inl e2"
      using list_not_ok [of wa ch] ok_eq lst by auto
    have cl: "cleanup_old_webhooks wa ch = (Some e2, wb)"
      by (simp add: cleanup_old_webhooks_def lst e2)
    have res: "create_new_webhook w ch = (Inl PyException, wb)"
      by (simp add: create_new_webhook_def cf h c cl)
    show "fst (create_new_webhook w ch) = Inl PyException" by (simp add: res)
    show "map fst (calls (snd (create_new_webhook w ch))) =
            map fst (calls w) @ [CallCreateWebhook ch ?nm, CallListWebhooks ch]"
      by (simp add: res wb_calls)
  next
    assume y: "next_ok w ListWebhooks"
    then have l: "lr = Inr ?hooks"
      using list_ok [of wa ch] ok_eq wa_hooks lst by simp
    define wc where "wc = cleanup_recognized wb ?hooks"
    define wd where "wd = cleanup_others wc ?hooks"
    obtain rr we where rt: "channel_create_webhook wd ch ?nm = (rr, we)"
      by (cases "channel_create_webhook wd ch ?nm")
    have cl: "cleanup_old_webhooks wa ch = (None, wd)"
      by (simp add: cleanup_old_webhooks_def lst l wc_def wd_def)
    have res: "create_new_webhook w ch =
        (case rr of Inr hk \<Rightarrow> (Inr hk, cache_webhook we ch hk)
                  | Inl e3 \<Rightarrow> (Inl PyException, we))"
      by (simp add: create_new_webhook_def cf h c cl rt split: sum.splits)
    have calls_res: "map fst (calls (snd (create_new_webhook w ch))) = map fst (calls we)"
      unfolding res by (simp add: cache_webhook_def split: sum.splits)
    have wc_calls: "map fst (calls wc) =
        map fst (calls wb) @ map CallDeleteWebhook (tl (filter recognized ?hooks))"
      unfolding wc_def by (rule cleanup_recognized_calls)
    obtain extra where ex1: "map fst (calls wd) = map fst (calls wc) @ map CallDeleteWebhook extra"
      and ex2: "length extra \<le> 5"
      and ex3: "\<exists>k. extra = take k (filter (\<lambda>h. \<not> recognized h) ?hooks)"
      and ex4: "length ?hooks \<ge> 15 \<longrightarrow> extra = take 5 (filter (\<lambda>h. \<not> recognized h) ?hooks)"
      using cleanup_others_calls [of wc ?hooks] unfolding wd_def by blast
    have r_calls: "map fst (calls we) = map fst (calls wd) @ [CallCreateWebhook ch ?nm]"
      using create_calls [of wd ch ?nm] rt by simp
    have seq: "map fst (calls (snd (create_new_webhook w ch))) =
                 map fst (calls w)
                 @ [CallCreateWebhook ch ?nm, CallListWebhooks ch]
                 @ map CallDeleteWebhook (tl (filter recognized ?hooks) @ extra)
                 @ [CallCreateWebhook ch ?nm]"
      by (simp add: calls_res r_calls ex1 wc_calls wb_calls)
    have still: "length (channel_hooks wc ch) \<le> length ?hooks"
      using cleanup_recognized_hooks [of wb ?hooks ch] wb_hooks by (simp add: wc_def)
    have ex5: "15 \<le> length (channel_hooks wc ch) \<longrightarrow>
                 extra = take 5 (filter (\<lambda>h. \<not> recognized h) ?hooks)"
      using ex4 still by simp
    show "\<exists>extra.
               map fst (calls (snd (create_new_webhook w ch))) =
                 map fst (calls w)
                 @ [CallCreateWebhook ch ?nm, CallListWebhooks ch]
                 @ map CallDeleteWebhook (tl (filter recognized ?hooks) @ extra)
                 @ [CallCreateWebhook ch ?nm]
             \<and> length extra \<le> 5
             \<and> (\<exists>k. extra = take k (filter (\<lambda>h. \<not> recognized h) ?hooks))
             \<and> (15 \<le> length (channel_hooks
                        (cleanup_recognized
                           (snd (channel_webhooks
                                   (snd (channel_create_webhook w ch ?nm)) ch))
                           ?hooks) ch)
                 \<longrightarrow> extra = take 5 (filter (\<lambda>h. \<not> recognized h) ?hooks))"
      unfolding still_eq using seq ex2 ex3 ex5 unfolding wc_def by blast
    have wd_create: "outcomes wd CreateWebhook = rest"
      using wb_create
      by (simp add: wd_def wc_def cleanup_others_outcomes cleanup_recognized_outcomes)
    show "(case rest of
             Some e3 # rs \<Rightarrow> fst (create_new_webhook w ch) = Inl PyException
           | _ \<Rightarrow> (\<exists>hk. fst (create_new_webhook w ch) = Inr hk
                      \<and> webhook_cache (snd (create_new_webhook w ch)) ch = Some hk))"
      using create_result [of wd ch ?nm] unfolding wd_create res rt
      by (auto simp: cache_webhook_def split: list.splits option.splits sum.splits)
  qed
qed

lemma ex_full_hooks:
  "channel_hooks (ex_full cs ls) 7 =
     map ex_other_hook [21, 22, 23, 24, 25, 26, 27, 28, 29, 30, 31, 32, 33, 34, 35]"
  by (simp add: channel_hooks_def ex_full_def ex_other_hook_def)

lemma ex_other_unrecognized: "\<not> recognized (ex_other_hook i)"
  by (simp add: recognized_def ex_other_hook_def)

lemma ex_full_recognized: "filter recognized (channel_hooks (ex_full cs ls) 7) = []"
  by (simp add: ex_full_hooks ex_other_unrecognized)

lemma ex_full_others:
  "take 5 (filter (\<lambda>h. \<not> recognized h) (channel_hooks (ex_full cs ls) 7)) =
     map ex_other_hook [21, 22, 23, 24, 25]"
  by (simp add: ex_full_hooks ex_other_unrecognized)

lemma ex_full_outcomes:
  "outcomes (ex_full cs ls) CreateWebhook = cs" "outcomes (ex_full cs ls) ListWebhooks = ls"
  "calls (ex_full cs ls) = []"
  by (simp_all add: ex_full_def ex_world_def)

lemma cleanup_recognized_none:
  "filter recognized hooks = [] \<Longrightarrow> cleanup_recognized w hooks = w"
  by (simp add: cleanup_recognized_def)

lemma ex_full_still:
  "length (channel_hooks (cleanup_recognized
      (snd (channel_webhooks (snd (channel_create_webhook (ex_full (Some e # rest) ls) 7 nm)) 7))
      (channel_hooks (ex_full (Some e # rest) ls) 7)) 7) = 15"
proof -
  have "webhooks (snd (channel_create_webhook (ex_full (Some e # rest) ls) 7 nm))
          = webhooks (ex_full (Some e # rest) ls)"
    using create_fail [of "ex_full (Some e # rest) ls" e rest 7 nm]
    by (simp add: ex_full_outcomes)
  then have "channel_hooks
      (snd (channel_webhooks (snd (channel_create_webhook (ex_full (Some e # rest) ls) 7 nm)) 7)) 7
      = channel_hooks (ex_full (Some e # rest) ls) 7"
    by (simp add: channel_hooks_def list_webhooks)
  then show ?thesis
    by (simp add: cleanup_recognized_none ex_full_recognized) (simp add: ex_full_hooks)
qed

text \<open>
  Channel 7 holds fifteen endpoints of another integration.  With a failing listing the
  attempt fails after one creation request; with a working listing five of the other
  endpoints are deleted and the single retry succeeds; with a second quota answer the
  attempt fails.
\<close>

theorem quota_recovery_witness:
  "fst (create_new_webhook (ex_full [Some (HTTPException 30007)] [Some (HTTPException 500)]) 7)
     = Inl PyException
   \<and> map fst (calls (snd (create_new_webhook
         (ex_full [Some (HTTPException 30007)] [Some (HTTPException 500)]) 7))) =
       [CallCreateWebhook 7 ''Quest Keeper RP'', CallListWebhooks 7]
   \<and> map fst (calls (snd (create_new_webhook (ex_full [Some (HTTPException 30007)] []) 7))) =
       [CallCreateWebhook 7 ''Quest Keeper RP'', CallListWebhooks 7]
       @ map CallDeleteWebhook (map ex_other_hook [21, 22, 23, 24, 25])
       @ [CallCreateWebhook 7 ''Quest Keeper RP'']
   \<and> (\<exists>hk. fst (create_new_webhook (ex_full [Some (HTTPException 30007)] []) 7) = Inr hk
          \<and> webhook_cache (snd (create_new_webhook (ex_full [Some (HTTPException 30007)] []) 7)) 7
              = Some hk)
   \<and> fst (create_new_webhook
         (ex_full [Some (HTTPException 30007), Some (HTTPException 30007)] []) 7)
       = Inl PyException"
proof -
  let ?q = "HTTPException 30007"
  have hq: "is_http ?q" "code ?q = 30007" by simp_all
  have nl: "\<not> next_ok (ex_full [Some ?q] [Some (HTTPException 500)]) ListWebhooks"
    by (simp add: next_ok_def ex_full_outcomes)
  have yl: "next_ok (ex_full [Some ?q] []) ListWebhooks"
    "next_ok (ex_full [Some ?q, Some ?q] []) ListWebhooks"
    by (simp_all add: next_ok_def ex_full_outcomes)
  have a: "fst (create_new_webhook (ex_full [Some ?q] [Some (HTTPException 500)]) 7) = Inl PyException
     \<and> map fst (calls (snd (create_new_webhook (ex_full [Some ?q] [Some (HTTPException 500)]) 7))) =
       [CallCreateWebhook 7 ''Quest Keeper RP'', CallListWebhooks 7]"
    using quota_recovery [of "ex_full [Some ?q] [Some (HTTPException 500)]" ?q "[]" 7] hq nl
    by (simp add: ex_full_outcomes)
  have b: "map fst (calls (snd (create_new_webhook (ex_full [Some ?q] []) 7))) =
       [CallCreateWebhook 7 ''Quest Keeper RP'', CallListWebhooks 7]
       @ map CallDeleteWebhook (map ex_other_hook [21, 22, 23, 24, 25])
       @ [CallCreateWebhook 7 ''Quest Keeper RP'']
     \<and> (\<exists>hk. fst (create_new_webhook (ex_full [Some ?q] []) 7) = Inr hk
          \<and> webhook_cache (snd (create_new_webhook (ex_full [Some ?q] []) 7)) 7 = Some hk)"
    using quota_recovery [of "ex_full [Some ?q] []" ?q "[]" 7] hq yl(1)
    by (simp add: ex_full_outcomes ex_full_still ex_full_recognized ex_full_others)
  have c: "fst (create_new_webhook (ex_full [Some ?q, Some ?q] []) 7) = Inl PyException"
    using quota_recovery [of "ex_full [Some ?q, Some ?q] []" ?q "[Some ?q]" 7] hq yl(2)
    by (simp add: ex_full_outcomes)
  from a b c show ?thesis by simp
qed

text \<open>
  The claim as stated fails when cleanup cannot list the endpoints: the creation request
  is answered with the quota code, the listing of cleanup fails, and the log holds no
  second creation request.
\<close>

theorem quota_cleanup_failure_no_retry:
  "fst (get_or_create_webhook
          (ex_full [Some (HTTPException 30007)] [None, Some (HTTPException 500)]) 7)
     = Inl PyException
   \<and> calls (snd (get_or_create_webhook
          (ex_full [Some (HTTPException 30007)] [None, Some (HTTPException 500)]) 7)) =
       [(CallListWebhooks 7, None),
        (CallCreateWebhook 7 ''Quest Keeper RP'', Some (HTTPException 30007)),
        (CallListWebhooks 7, Some (HTTPException 500))]"
  by (simp add: get_or_create_webhook_def find_existing_webhook_def create_new_webhook_def
      cleanup_old_webhooks_def channel_webhooks_def channel_create_webhook_def request_def
      ex_full_def ex_world_def ex_other_hook_def recognized_def)

end
